theory Spec2Isabelle
  imports Main
begin

section \<open>Python values, faults and wire messages\<close>

text \<open>
  The connection classes of \<^verbatim>\<open>rexpro/connectors/base.py\<close> are dynamically typed: a host
  or a port is a scalar (a string, an integer, \<^verbatim>\<open>None\<close>) or a list of scalars. The
  scalars are the hashable values that end up in the blacklists.
\<close>

datatype atom = NoneV | IntV int | StrV string

datatype pyval = Atom atom | ListV "atom list"

text \<open>Python truthiness, as used by \<^verbatim>\<open>x or y\<close>.\<close>

fun truthy :: "pyval \<Rightarrow> bool" where
  "truthy (Atom NoneV) = False"
| "truthy (Atom (IntV i)) = (i \<noteq> 0)"
| "truthy (Atom (StrV s)) = (s \<noteq> [])"
| "truthy (ListV xs) = (xs \<noteq> [])"

definition py_or :: "pyval \<Rightarrow> pyval \<Rightarrow> pyval" where
  "py_or a b = (if truthy a then a else b)"

text \<open>
  The exceptions of the \<^verbatim>\<open>rexpro.exceptions\<close> module that the source names, the error of
  the socket backend, and the built-in exceptions the source can run into.
\<close>

datatype rexpro_exception =
    RexProConnectionException string
  | RexProScriptException string
  | RexProInvalidSessionException string

datatype exn =
    RexPro rexpro_exception
  | SocketError string
  | TypeError
  | IndexError
  | AttributeError

datatype 'a result = Ok 'a | Raise exn

text \<open>\<^verbatim>\<open>len(x)\<close>: defined on strings and lists, a \<^verbatim>\<open>TypeError\<close> on integers and \<^verbatim>\<open>None\<close>.\<close>

fun py_len :: "pyval \<Rightarrow> nat result" where
  "py_len (Atom (StrV s)) = Ok (length s)"
| "py_len (Atom (IntV i)) = Raise TypeError"
| "py_len (Atom NoneV) = Raise TypeError"
| "py_len (ListV xs) = Ok (length xs)"

type_synonym params = "(string \<times> atom) list"
type_synonym results = "atom list"

text \<open>
  The three requests the source builds: \<^verbatim>\<open>SessionRequest(username, password, graph_name)\<close>
  in \<^verbatim>\<open>_open_session\<close>, \<^verbatim>\<open>SessionRequest(session_key, graph_name, kill_session=True)\<close>
  in \<^verbatim>\<open>close\<close>, and \<^verbatim>\<open>ScriptRequest(script, params, session_key, isolate, in_transaction)\<close>
  in \<^verbatim>\<open>execute\<close>.
\<close>

datatype request =
    SessionOpenRequest pyval pyval pyval
  | SessionKillRequest "string option" pyval
  | ScriptRequest string params "string option" bool bool

datatype response =
    SessionResponse string
  | ScriptResponse results
  | ErrorResponse rexpro_exception

text \<open>\<^verbatim>\<open>response.raise_exception()\<close> raises the exception the error response stands for.\<close>

definition raise_exception :: "rexpro_exception \<Rightarrow> exn" where
  "raise_exception e = RexPro e"

section \<open>The environment: socket backend, server and random source\<close>

text \<open>
  Everything outside the connection object is an oracle: the \<open>k\<close>-th call of each external
  operation has the outcome the oracle gives at \<open>k\<close>. A theorem about all worlds covers
  every behaviour of the network, of the server and of \<^verbatim>\<open>random.choice\<close>.
\<close>

record world =
  w_connect :: "nat \<Rightarrow> string option"
  w_send :: "nat \<Rightarrow> string option"
  w_recv :: "nat \<Rightarrow> string + response"
  w_choice :: "nat \<Rightarrow> nat"
  w_select :: "nat \<Rightarrow> string + bool \<times> bool"
  w_shutdown :: "nat \<Rightarrow> string option"
  w_close :: "nat \<Rightarrow> string option"

section \<open>The connection object\<close>

datatype call = CallTestConnection | CallOpenTransaction | CallCloseTransaction bool

record config =
  host :: pyval
  port :: pyval
  graph_name :: pyval
  graph_obj_name :: pyval
  username :: pyval
  password :: pyval
  timeout :: pyval

text \<open>
  The fields of \<^verbatim>\<open>RexProBaseConnection\<close>; \<open>sock\<close> is \<^verbatim>\<open>_conn\<close> (the number of the socket
  object, \<open>None\<close> for Python's \<^verbatim>\<open>None\<close>). The remaining fields are the environment of
  this connection, how many calls of each external operation it has made, the requests it
  has handed to \<^verbatim>\<open>send_message\<close>, and the calls of \<^verbatim>\<open>test_connection\<close>,
  \<^verbatim>\<open>open_transaction\<close> and \<^verbatim>\<open>close_transaction\<close> made on it, each recorded on entry.
\<close>

record conn = config +
  sock :: "nat option"
  in_transaction :: bool
  session_key :: "string option"
  opened :: bool
  port_blacklist :: "atom set"
  host_blacklist :: "atom set"
  current_host :: atom
  current_port :: atom
  env :: world
  n_sock :: nat
  n_connect :: nat
  n_send :: nat
  n_recv :: nat
  n_choice :: nat
  n_select :: nat
  n_shutdown :: nat
  n_close :: nat
  sent :: "request list"
  calls :: "call list"

definition CONNECTION_ATTEMPTS :: nat where
  "CONNECTION_ATTEMPTS = 3"

subsection \<open>Calls into the socket backend\<close>

definition send_message :: "request \<Rightarrow> conn \<Rightarrow> unit result \<times> conn" where
  "send_message msg s =
     (case sock s of
        None \<Rightarrow> (Raise AttributeError, s)
      | Some _ \<Rightarrow>
          (case w_send (env s) (n_send s) of
             None \<Rightarrow> Ok ()
           | Some m \<Rightarrow> Raise (SocketError m),
           s\<lparr>n_send := Suc (n_send s), sent := sent s @ [msg]\<rparr>))"

definition get_response :: "conn \<Rightarrow> response result \<times> conn" where
  "get_response s =
     (case sock s of
        None \<Rightarrow> (Raise AttributeError, s)
      | Some _ \<Rightarrow>
          (case w_recv (env s) (n_recv s) of
             Inl m \<Rightarrow> Raise (SocketError m)
           | Inr r \<Rightarrow> Ok r,
           s\<lparr>n_recv := Suc (n_recv s)\<rparr>))"

definition sock_connect :: "conn \<Rightarrow> unit result \<times> conn" where
  "sock_connect s =
     (case sock s of
        None \<Rightarrow> (Raise AttributeError, s)
      | Some _ \<Rightarrow>
          (case w_connect (env s) (n_connect s) of
             None \<Rightarrow> Ok ()
           | Some m \<Rightarrow> Raise (SocketError m),
           s\<lparr>n_connect := Suc (n_connect s)\<rparr>))"

text \<open>
  \<^verbatim>\<open>random.choice(list(set(xs) - blacklist))\<close>: an \<^verbatim>\<open>IndexError\<close> on the empty list,
  otherwise any element, picked by the random number \<open>r\<close>.
\<close>

definition choice :: "atom list \<Rightarrow> atom set \<Rightarrow> nat \<Rightarrow> atom result" where
  "choice xs bl r =
     (let choices = filter (\<lambda>x. x \<notin> bl) (remdups xs)
      in if choices = [] then Raise IndexError
         else Ok (choices ! (r mod length choices)))"

subsection \<open>\<^verbatim>\<open>_open_session\<close>\<close>

definition open_session :: "conn \<Rightarrow> unit result \<times> conn" where
  "open_session s =
     (case send_message (SessionOpenRequest (username s) (password s) (graph_name s)) s of
        (Raise e, s1) \<Rightarrow> (Raise e, s1)
      | (Ok _, s1) \<Rightarrow>
          (case get_response s1 of
             (Raise e, s2) \<Rightarrow> (Raise e, s2)
           | (Ok (ErrorResponse e), s2) \<Rightarrow> (Raise (raise_exception e), s2)
           | (Ok (SessionResponse k), s2) \<Rightarrow> (Ok (), s2\<lparr>session_key := Some k\<rparr>)
           | (Ok (ScriptResponse _), s2) \<Rightarrow> (Raise AttributeError, s2)))"

subsection \<open>\<^verbatim>\<open>close\<close>\<close>

definition close_conn :: "bool \<Rightarrow> conn \<Rightarrow> unit result \<times> conn" where
  "close_conn soft s =
     (case send_message (SessionKillRequest (session_key s) (graph_name s)) s of
        (Raise e, s1) \<Rightarrow> (Raise e, s1)
      | (Ok _, s1) \<Rightarrow>
          (case get_response s1 of
             (Raise e, s2) \<Rightarrow> (Raise e, s2)
           | (Ok response, s2) \<Rightarrow>
               (let s3 = (if \<not> soft then s2\<lparr>opened := False\<rparr> else s2);
                    s4 = s3\<lparr>session_key := None, in_transaction := False\<rparr>
                in case response of
                     ErrorResponse e \<Rightarrow> (Raise (raise_exception e), s4)
                   | _ \<Rightarrow> (Ok (), s4))))"

subsection \<open>\<^verbatim>\<open>connection_failed\<close>\<close>

definition connection_failed :: "conn \<Rightarrow> unit result \<times> conn" where
  "connection_failed s =
     (let s1 = s\<lparr>port_blacklist := insert (current_port s) (port_blacklist s),
                 host_blacklist := insert (current_host s) (host_blacklist s)\<rparr>
      in case py_len (host s1) of
           Raise e \<Rightarrow> (Raise e, s1)
         | Ok hn \<Rightarrow>
             (let s2 = (if card (host_blacklist s1) \<ge> hn then s1\<lparr>host_blacklist := {}\<rparr> else s1)
              in case py_len (port s2) of
                   Raise e \<Rightarrow> (Raise e, s2)
                 | Ok pn \<Rightarrow>
                     (Ok (), if card (port_blacklist s2) \<ge> pn
                             then s2\<lparr>port_blacklist := {}\<rparr> else s2)))"

subsection \<open>\<^verbatim>\<open>open\<close>\<close>

text \<open>
  One pass through the body of the loop of \<^verbatim>\<open>open\<close>, up to the point where one of its two
  exception handlers would start, the loop would return, or an exception would leave the
  method: the socket, the two endpoint draws and \<^verbatim>\<open>connect\<close> when the attempt is not
  soft, then the session handshake. Creating the socket and setting its timeout are taken
  not to fail; \<open>Escaped\<close> is an exception of a draw, which no handler of \<^verbatim>\<open>open\<close> covers.
\<close>

datatype attempt = Established | ConnectFailed exn | HandshakeFailed exn | Escaped exn

definition draw_host :: "conn \<Rightarrow> unit result \<times> conn" where
  "draw_host s =
     (case host s of
        ListV hs \<Rightarrow>
          (case choice hs (host_blacklist s) (w_choice (env s) (n_choice s)) of
             Raise e \<Rightarrow> (Raise e, s\<lparr>n_choice := Suc (n_choice s)\<rparr>)
           | Ok h \<Rightarrow> (Ok (), s\<lparr>current_host := h, n_choice := Suc (n_choice s)\<rparr>))
      | Atom a \<Rightarrow> (Ok (), s\<lparr>current_host := a\<rparr>))"

definition draw_port :: "conn \<Rightarrow> unit result \<times> conn" where
  "draw_port s =
     (case port s of
        ListV ps \<Rightarrow>
          (case choice ps (port_blacklist s) (w_choice (env s) (n_choice s)) of
             Raise e \<Rightarrow> (Raise e, s\<lparr>n_choice := Suc (n_choice s)\<rparr>)
           | Ok p \<Rightarrow> (Ok (), s\<lparr>current_port := p, n_choice := Suc (n_choice s)\<rparr>))
      | Atom a \<Rightarrow> (Ok (), s\<lparr>current_port := a\<rparr>))"

definition handshake :: "conn \<Rightarrow> attempt \<times> conn" where
  "handshake s =
     (case open_session (s\<lparr>in_transaction := False, session_key := None, opened := True\<rparr>) of
        (Ok _, s1) \<Rightarrow> (Established, s1)
      | (Raise e, s1) \<Rightarrow> (HandshakeFailed e, s1))"

definition open_attempt :: "bool \<Rightarrow> conn \<Rightarrow> attempt \<times> conn" where
  "open_attempt soft s =
     (if \<not> soft then
        (let s1 = s\<lparr>sock := Some (n_sock s), n_sock := Suc (n_sock s)\<rparr> in
         case draw_host s1 of
           (Raise e, s2) \<Rightarrow> (Escaped e, s2)
         | (Ok _, s2) \<Rightarrow>
             (case draw_port s2 of
                (Raise e, s3) \<Rightarrow> (Escaped e, s3)
              | (Ok _, s3) \<Rightarrow>
                  (case sock_connect s3 of
                     (Raise e, s4) \<Rightarrow> (ConnectFailed e, s4)
                   | (Ok _, s4) \<Rightarrow> handshake s4)))
      else handshake s)"

text \<open>
  The loop \<^verbatim>\<open>for i in range(CONNECTION_ATTEMPTS)\<close>. A failed connect runs
  \<^verbatim>\<open>connection_failed\<close> and continues; a failed handshake sets \<^verbatim>\<open>soft = False\<close>, runs
  \<^verbatim>\<open>connection_failed\<close> and re-raises when \<^verbatim>\<open>i >= CONNECTION_ATTEMPTS - 1\<close>. A loop that
  runs out of indices falls off the end of the method, which returns \<^verbatim>\<open>None\<close>.
\<close>

fun open_loop :: "nat list \<Rightarrow> bool \<Rightarrow> conn \<Rightarrow> unit result \<times> conn" where
  "open_loop [] soft s = (Ok (), s)"
| "open_loop (i # is) soft s =
     (case open_attempt soft s of
        (Established, s1) \<Rightarrow> (Ok (), s1)
      | (Escaped e, s1) \<Rightarrow> (Raise e, s1)
      | (ConnectFailed e, s1) \<Rightarrow>
          (case connection_failed s1 of
             (Raise e', s2) \<Rightarrow> (Raise e', s2)
           | (Ok _, s2) \<Rightarrow> open_loop is soft s2)
      | (HandshakeFailed e, s1) \<Rightarrow>
          (case connection_failed s1 of
             (Raise e', s2) \<Rightarrow> (Raise e', s2)
           | (Ok _, s2) \<Rightarrow>
               (if i \<ge> CONNECTION_ATTEMPTS - 1 then (Raise e, s2)
                else open_loop is False s2)))"

definition open_conn :: "bool \<Rightarrow> conn \<Rightarrow> unit result \<times> conn" where
  "open_conn soft s = open_loop [0 ..< CONNECTION_ATTEMPTS] soft s"

subsection \<open>The constructor\<close>

text \<open>
  \<^verbatim>\<open>__init__\<close> stores the configuration, resets the state and calls \<^verbatim>\<open>self.open()\<close>.
  \<open>new_conn\<close> is the object just before that call; the caller only gets the object when
  \<^verbatim>\<open>open\<close> does not raise.
\<close>

definition new_conn ::
  "world \<Rightarrow> pyval \<Rightarrow> pyval \<Rightarrow> pyval \<Rightarrow> pyval \<Rightarrow> pyval \<Rightarrow> pyval \<Rightarrow> pyval \<Rightarrow> conn" where
  "new_conn w h p g go u pw t =
     \<lparr>host = h, port = p, graph_name = g, graph_obj_name = go, username = u, password = pw,
      timeout = t, sock = None, in_transaction = False, session_key = None, opened = False,
      port_blacklist = {}, host_blacklist = {}, current_host = NoneV, current_port = NoneV,
      env = w, n_sock = 0, n_connect = 0, n_send = 0, n_recv = 0, n_choice = 0, n_select = 0,
      n_shutdown = 0, n_close = 0, sent = [], calls = []\<rparr>"

definition init_conn ::
  "world \<Rightarrow> pyval \<Rightarrow> pyval \<Rightarrow> pyval \<Rightarrow> pyval \<Rightarrow> pyval \<Rightarrow> pyval \<Rightarrow> pyval \<Rightarrow> unit result \<times> conn" where
  "init_conn w h p g go u pw t = open_conn False (new_conn w h p g go u pw t)"

subsection \<open>\<^verbatim>\<open>execute\<close>\<close>

text \<open>
  The \<^verbatim>\<open>try\<close> block of \<^verbatim>\<open>execute\<close> after the transaction flag has been settled: send the
  script request, read the response, raise on an error response, return the results.
\<close>

definition execute_try ::
  "string \<Rightarrow> params \<Rightarrow> bool \<Rightarrow> bool \<Rightarrow> conn \<Rightarrow> results result \<times> conn" where
  "execute_try script params isolate transaction s =
     (case send_message (ScriptRequest script params (session_key s) isolate transaction) s of
        (Raise e, s1) \<Rightarrow> (Raise e, s1)
      | (Ok _, s1) \<Rightarrow>
          (case get_response s1 of
             (Raise e, s2) \<Rightarrow> (Raise e, s2)
           | (Ok (ErrorResponse e), s2) \<Rightarrow> (Raise (raise_exception e), s2)
           | (Ok (ScriptResponse r), s2) \<Rightarrow> (Ok r, s2)
           | (Ok (SessionResponse _), s2) \<Rightarrow> (Raise AttributeError, s2)))"

text \<open>
  The loop of \<^verbatim>\<open>execute\<close>. The local variable \<^verbatim>\<open>transaction\<close> is set to \<^verbatim>\<open>False\<close> when
  the connection is in a transaction and keeps that value in the later iterations. The
  handler runs \<^verbatim>\<open>connection_failed\<close>, re-raises on the last index and otherwise closes
  (hard) and reopens; an exception of these calls leaves the method.
\<close>

fun execute_loop ::
  "nat list \<Rightarrow> string \<Rightarrow> params \<Rightarrow> bool \<Rightarrow> bool \<Rightarrow> conn \<Rightarrow> results option result \<times> conn" where
  "execute_loop [] script params isolate transaction s = (Ok None, s)"
| "execute_loop (i # is) script params isolate transaction s =
     (let transaction' = (if in_transaction s then False else transaction) in
      case execute_try script params isolate transaction' s of
        (Ok r, s1) \<Rightarrow> (Ok (Some r), s1)
      | (Raise e, s1) \<Rightarrow>
          (case connection_failed s1 of
             (Raise e', s2) \<Rightarrow> (Raise e', s2)
           | (Ok _, s2) \<Rightarrow>
               (if i \<ge> CONNECTION_ATTEMPTS - 1 then (Raise e, s2)
                else
                  (case close_conn False s2 of
                     (Raise e', s3) \<Rightarrow> (Raise e', s3)
                   | (Ok _, s3) \<Rightarrow>
                       (case open_conn False s3 of
                          (Raise e', s4) \<Rightarrow> (Raise e', s4)
                        | (Ok _, s4) \<Rightarrow>
                            execute_loop is script params isolate transaction' s4)))))"

definition execute ::
  "string \<Rightarrow> params \<Rightarrow> bool \<Rightarrow> bool \<Rightarrow> conn \<Rightarrow> results option result \<times> conn" where
  "execute script params isolate transaction s =
     execute_loop [0 ..< CONNECTION_ATTEMPTS] script params isolate transaction s"

subsection \<open>\<^verbatim>\<open>open_transaction\<close> and \<^verbatim>\<open>close_transaction\<close>\<close>

definition open_transaction :: "conn \<Rightarrow> unit result \<times> conn" where
  "open_transaction s0 =
     (let s = s0\<lparr>calls := calls s0 @ [CallOpenTransaction]\<rparr> in
      if in_transaction s
      then (Raise (RexPro (RexProScriptException ''transaction is already open'')), s)
      else
        (case execute ''g.stopTransaction(FAILURE)'' [] False False s of
           (Raise e, s1) \<Rightarrow> (Raise e, s1)
         | (Ok _, s1) \<Rightarrow> (Ok (), s1\<lparr>in_transaction := True\<rparr>)))"

definition close_transaction :: "bool \<Rightarrow> conn \<Rightarrow> unit result \<times> conn" where
  "close_transaction success s0 =
     (let s = s0\<lparr>calls := calls s0 @ [CallCloseTransaction success]\<rparr> in
      if \<not> in_transaction s
      then (Raise (RexPro (RexProScriptException ''transaction is not open'')), s)
      else
        (case execute (''g.stopTransaction('' @ (if success then ''SUCCESS'' else ''FAILURE'') @ '')'')
                [] False False s of
           (Raise e, s1) \<Rightarrow> (Raise e, s1)
         | (Ok _, s1) \<Rightarrow> (Ok (), s1\<lparr>in_transaction := False\<rparr>)))"

subsection \<open>\<^verbatim>\<open>test_connection\<close>\<close>

text \<open>
  \<^verbatim>\<open>_select\<close> answers with the lists of readable and writable sockets; only whether each
  list is non-empty matters to the source.
\<close>

definition sock_select :: "conn \<Rightarrow> (bool \<times> bool) result \<times> conn" where
  "sock_select s =
     (case w_select (env s) (n_select s) of
        Inl m \<Rightarrow> Raise (SocketError m)
      | Inr rw \<Rightarrow> Ok rw,
      s\<lparr>n_select := Suc (n_select s)\<rparr>)"

definition sock_shutdown :: "conn \<Rightarrow> unit result \<times> conn" where
  "sock_shutdown s =
     (case sock s of
        None \<Rightarrow> (Raise AttributeError, s)
      | Some _ \<Rightarrow>
          (case w_shutdown (env s) (n_shutdown s) of
             None \<Rightarrow> Ok ()
           | Some m \<Rightarrow> Raise (SocketError m),
           s\<lparr>n_shutdown := Suc (n_shutdown s)\<rparr>))"

definition sock_close :: "conn \<Rightarrow> unit result \<times> conn" where
  "sock_close s =
     (case sock s of
        None \<Rightarrow> (Raise AttributeError, s)
      | Some _ \<Rightarrow>
          (case w_close (env s) (n_close s) of
             None \<Rightarrow> Ok ()
           | Some m \<Rightarrow> Raise (SocketError m),
           s\<lparr>n_close := Suc (n_close s)\<rparr>))"

text \<open>
  The \<^verbatim>\<open>try\<close> block of the reconnection loop: \<open>Ok True\<close> when it reaches \<^verbatim>\<open>return None\<close>,
  \<open>Ok False\<close> when it reaches \<^verbatim>\<open>pass\<close>, \<open>Raise\<close> when the handler swallows an exception.
  Setting the timeout is taken not to fail.
\<close>

definition reconnect_try :: "conn \<Rightarrow> bool result \<times> conn" where
  "reconnect_try s =
     (case sock_shutdown s of
        (Raise e, s1) \<Rightarrow> (Raise e, s1)
      | (Ok _, s1) \<Rightarrow>
          (case sock_close s1 of
             (Raise e, s2) \<Rightarrow> (Raise e, s2)
           | (Ok _, s2) \<Rightarrow>
               (case sock_connect s2 of
                  (Raise e, s3) \<Rightarrow> (Raise e, s3)
                | (Ok _, s3) \<Rightarrow>
                    (case sock_select s3 of
                       (Raise e, s4) \<Rightarrow> (Raise e, s4)
                     | (Ok (readable, writeable), s4) \<Rightarrow>
                         (if \<not> readable \<and> \<not> writeable then (Ok False, s4)
                          else
                            (case open_session (s4\<lparr>in_transaction := False, session_key := None\<rparr>) of
                               (Raise e, s5) \<Rightarrow> (Raise e, s5)
                             | (Ok _, s5) \<Rightarrow> (Ok True, s5)))))))"

text \<open>
  The loop \<^verbatim>\<open>for timeout in [2, 4, 8]\<close> and the \<^verbatim>\<open>raise\<close> after it. The message of the
  exception is given without its formatted host and port.
\<close>

fun reconnect_loop :: "nat list \<Rightarrow> conn \<Rightarrow> unit result \<times> conn" where
  "reconnect_loop [] s =
     (Raise (RexPro (RexProConnectionException ''Could not reconnect to database'')), s)"
| "reconnect_loop (t # ts) s =
     (case reconnect_try s of
        (Ok True, s1) \<Rightarrow> (Ok (), s1)
      | (Ok False, s1) \<Rightarrow> reconnect_loop ts s1
      | (Raise e, s1) \<Rightarrow> reconnect_loop ts s1)"

definition test_connection :: "conn \<Rightarrow> unit result \<times> conn" where
  "test_connection s0 =
     (let s = s0\<lparr>calls := calls s0 @ [CallTestConnection]\<rparr> in
      case sock_select s of
        (Raise e, s1) \<Rightarrow> (Raise e, s1)
      | (Ok (readable, writeable), s1) \<Rightarrow>
          (if \<not> readable \<and> \<not> writeable then reconnect_loop [2, 4, 8] s1
           else (Ok (), s1)))"

subsection \<open>The \<^verbatim>\<open>transaction\<close> context manager\<close>

text \<open>
  \<open>body\<close> is the block under \<^verbatim>\<open>with conn.transaction():\<close>. It runs on the connection and
  either completes or raises; in both cases it may have changed the connection.
\<close>

definition transaction :: "(conn \<Rightarrow> 'a result \<times> conn) \<Rightarrow> conn \<Rightarrow> unit result \<times> conn" where
  "transaction body s =
     (case test_connection s of
        (Raise e, s1) \<Rightarrow> (Raise e, s1)
      | (Ok _, s1) \<Rightarrow>
          (case open_transaction s1 of
             (Raise e, s2) \<Rightarrow> (Raise e, s2)
           | (Ok _, s2) \<Rightarrow>
               (case body s2 of
                  (Raise e, s3) \<Rightarrow>
                    (case close_transaction False s3 of
                       (Raise e', s4) \<Rightarrow> (Raise e', s4)
                     | (Ok _, s4) \<Rightarrow> (Raise e, s4))
                | (Ok _, s3) \<Rightarrow> close_transaction True s3)))"

section \<open>The connection pool\<close>

text \<open>
  \<^verbatim>\<open>RexProBaseConnectionPool\<close>: the default configuration and the queue of idle
  connections (\<^verbatim>\<open>self.pool\<close>), taken first in, first out.
\<close>

record connection_pool = config +
  pool :: "conn list"

text \<open>
  \<^verbatim>\<open>_create_connection\<close>: every argument defaults to \<^verbatim>\<open>None\<close> and is merged with the pool's
  value by \<^verbatim>\<open>or\<close>. \<open>w\<close> is the environment of the connection that is constructed.
\<close>

definition private_create_connection ::
  "world \<Rightarrow> pyval \<Rightarrow> pyval \<Rightarrow> pyval \<Rightarrow> pyval \<Rightarrow> pyval \<Rightarrow> pyval \<Rightarrow> pyval \<Rightarrow> connection_pool
     \<Rightarrow> unit result \<times> conn" where
  "private_create_connection w h p g go u pw t self =
     init_conn w (py_or h (host self)) (py_or p (port self)) (py_or g (graph_name self))
       (py_or go (graph_obj_name self)) (py_or u (username self)) (py_or pw (password self))
       (py_or t (timeout self))"

text \<open>
  \<^verbatim>\<open>get\<close>: an idle connection when there is one, else a new one. The result is the
  outcome, the connection and the pool afterwards.
\<close>

definition get ::
  "world \<Rightarrow> pyval \<Rightarrow> pyval \<Rightarrow> pyval \<Rightarrow> pyval \<Rightarrow> pyval \<Rightarrow> pyval \<Rightarrow> pyval \<Rightarrow> connection_pool
     \<Rightarrow> (unit result \<times> conn) \<times> connection_pool" where
  "get w h p g go u pw t self =
     (case pool self of
        c # q \<Rightarrow> ((Ok (), c), self\<lparr>pool := q\<rparr>)
      | [] \<Rightarrow> (private_create_connection w h p g go u pw t self, self))"

definition put :: "conn \<Rightarrow> connection_pool \<Rightarrow> connection_pool" where
  "put c self = self\<lparr>pool := pool self @ [c]\<rparr>"

text \<open>
  \<^verbatim>\<open>close_all\<close>: while the queue is not empty, take a connection and call \<^verbatim>\<open>conn.close()\<close>
  (\<^verbatim>\<open>soft\<close> defaults to \<^verbatim>\<open>False\<close>) under \<^verbatim>\<open>except Exception: pass\<close>. The connection
  objects the loop has handled are collected in the order they were taken, as they are
  after their \<^verbatim>\<open>close\<close>.
\<close>

function close_all_loop :: "connection_pool \<Rightarrow> conn list \<Rightarrow> unit result \<times> connection_pool \<times> conn list" where
  "close_all_loop self done =
     (if pool self = [] then (Ok (), self, done)
      else
        (let c = hd (pool self); self' = self\<lparr>pool := tl (pool self)\<rparr> in
         case close_conn False c of
           (Ok _, c') \<Rightarrow> close_all_loop self' (done @ [c'])
         | (Raise e, c') \<Rightarrow> close_all_loop self' (done @ [c'])))"
  by pat_completeness auto
termination
  by (relation "measure (\<lambda>(self, done). length (pool self))") auto

definition close_all :: "connection_pool \<Rightarrow> unit result \<times> connection_pool \<times> conn list" where
  "close_all self = close_all_loop self []"

section \<open>Sequences of operations on one connection\<close>

text \<open>
  The public methods of a connection. A caller may catch what a method raises and go on
  using the object, so a sequence of calls continues from the state each call leaves.
\<close>

datatype op =
    Open bool
  | Close bool
  | OpenTransaction
  | CloseTransaction bool
  | Execute string params bool bool
  | TestConnection

fun apply_op :: "op \<Rightarrow> conn \<Rightarrow> unit result \<times> conn" where
  "apply_op (Open soft) s = open_conn soft s"
| "apply_op (Close soft) s = close_conn soft s"
| "apply_op OpenTransaction s = open_transaction s"
| "apply_op (CloseTransaction success) s = close_transaction success s"
| "apply_op (Execute script params isolate tx) s =
     (case execute script params isolate tx s of
        (Ok _, s1) \<Rightarrow> (Ok (), s1)
      | (Raise e, s1) \<Rightarrow> (Raise e, s1))"
| "apply_op TestConnection s = test_connection s"

fun run :: "op list \<Rightarrow> conn \<Rightarrow> conn" where
  "run [] s = s"
| "run (x # xs) s = run xs (snd (apply_op x s))"

section \<open>Observations used in the statements\<close>

text \<open>
  The \<^verbatim>\<open>in_transaction\<close> flags of the script requests in a list of requests, in order.
\<close>

fun script_flags :: "request list \<Rightarrow> bool list" where
  "script_flags [] = []"
| "script_flags (ScriptRequest script params k isolate t # ms) = t # script_flags ms"
| "script_flags (m # ms) = script_flags ms"

text \<open>An attempt of \<^verbatim>\<open>open\<close> that ended in one of the two exception handlers.\<close>

fun failed :: "attempt \<Rightarrow> bool" where
  "failed (ConnectFailed e) = True"
| "failed (HandshakeFailed e) = True"
| "failed Established = False"
| "failed (Escaped e) = False"

text \<open>The configuration and the environment of a connection are the same in both states.\<close>

definition same_config :: "conn \<Rightarrow> conn \<Rightarrow> bool" where
  "same_config s s' =
     (host s' = host s \<and> port s' = port s \<and> graph_name s' = graph_name s \<and>
      graph_obj_name s' = graph_obj_name s \<and> username s' = username s \<and>
      password s' = password s \<and> timeout s' = timeout s \<and> env s' = env s)"

text \<open>
  Nothing but the session state, the counters of external calls and the log of session
  requests differs between the two states.
\<close>

definition untouched :: "conn \<Rightarrow> conn \<Rightarrow> bool" where
  "untouched s s' =
     (same_config s s' \<and> calls s' = calls s \<and> sock s' = sock s \<and>
      host_blacklist s' = host_blacklist s \<and> port_blacklist s' = port_blacklist s \<and>
      current_host s' = current_host s \<and> current_port s' = current_port s \<and>
      script_flags (sent s') = script_flags (sent s))"

text \<open>
  \<open>quiet\<close>: the configuration, the recorded calls and the script requests are the same in
  both states. \<open>session_same\<close>: so are the session state and the socket handle.
\<close>

definition quiet :: "conn \<Rightarrow> conn \<Rightarrow> bool" where
  "quiet s s' =
     (same_config s s' \<and> calls s' = calls s \<and> script_flags (sent s') = script_flags (sent s))"

definition session_same :: "conn \<Rightarrow> conn \<Rightarrow> bool" where
  "session_same s s' =
     (opened s' = opened s \<and> session_key s' = session_key s \<and>
      in_transaction s' = in_transaction s \<and> sock s' = sock s)"


definition has_len :: "pyval \<Rightarrow> bool" where
  "has_len v = (case py_len v of Ok n \<Rightarrow> True | Raise e \<Rightarrow> False)"

fun is_list :: "pyval \<Rightarrow> bool" where
  "is_list (ListV xs) = True"
| "is_list (Atom a) = False"


definition candidates_ok :: "pyval \<Rightarrow> atom set \<Rightarrow> bool" where
  "candidates_ok v bl =
     (case v of
        ListV xs \<Rightarrow> distinct xs \<and> bl \<subseteq> set xs \<and> card bl < length xs
      | Atom a \<Rightarrow> True)"

definition current_ok :: "pyval \<Rightarrow> atom \<Rightarrow> bool" where
  "current_ok v cur = (case v of ListV xs \<Rightarrow> cur \<in> set xs | Atom a \<Rightarrow> True)"

definition endpoints_ready :: "conn \<Rightarrow> bool" where
  "endpoints_ready s =
     (candidates_ok (host s) (host_blacklist s) \<and> candidates_ok (port s) (port_blacklist s) \<and>
      (is_list (port s) \<longrightarrow> has_len (host s)))"

definition endpoints_ok :: "conn \<Rightarrow> bool" where
  "endpoints_ok s =
     (endpoints_ready s \<and> current_ok (host s) (current_host s) \<and>
      current_ok (port s) (current_port s))"

section \<open>Concrete environments\<close>

text \<open>
  An environment given by finite scripts: the outcomes of the first calls of
  \<^verbatim>\<open>connect\<close>, \<^verbatim>\<open>send_message\<close> and \<^verbatim>\<open>get_response\<close>. After its script, \<^verbatim>\<open>connect\<close> and
  \<^verbatim>\<open>send_message\<close> succeed and \<^verbatim>\<open>get_response\<close> times out. The random source always
  picks the first remaining candidate and the socket is always ready.
\<close>

definition nth_or :: "'a \<Rightarrow> 'a list \<Rightarrow> nat \<Rightarrow> 'a" where
  "nth_or d xs k = (if k < length xs then xs ! k else d)"

definition scripted ::
  "string option list \<Rightarrow> string option list \<Rightarrow> (string + response) list \<Rightarrow> world" where
  "scripted cs ss rs =
     \<lparr>w_connect = nth_or None cs, w_send = nth_or None ss, w_recv = nth_or (Inl ''timed out'') rs,
      w_choice = (\<lambda>k. 0), w_select = (\<lambda>k. Inr (True, True)),
      w_shutdown = (\<lambda>k. None), w_close = (\<lambda>k. None)\<rparr>"

text \<open>A connection to two hosts and two ports, as the constructor sets it up before \<^verbatim>\<open>open\<close>.\<close>

definition demo_conn :: "world \<Rightarrow> conn" where
  "demo_conn w =
     new_conn w (ListV [StrV ''h1'', StrV ''h2'']) (ListV [IntV 8184, IntV 8185])
       (Atom (StrV ''graph'')) (Atom (StrV ''g'')) (Atom (StrV [])) (Atom (StrV []))
       (Atom NoneV)"

text \<open>The constructor call that sets up such a connection and opens it.\<close>

definition demo_init :: "world \<Rightarrow> unit result \<times> conn" where
  "demo_init w =
     init_conn w (ListV [StrV ''h1'', StrV ''h2'']) (ListV [IntV 8184, IntV 8185])
       (Atom (StrV ''graph'')) (Atom (StrV ''g'')) (Atom (StrV [])) (Atom (StrV []))
       (Atom NoneV)"

text \<open>
  An environment in which the session handshakes succeed and the server answers every
  script request with a script error that carries the text \<open>m\<close>.
\<close>

definition script_error_world :: "string \<Rightarrow> world" where
  "script_error_world m =
     scripted [] []
       [Inr (SessionResponse ''key''),
        Inr (ErrorResponse (RexProScriptException m)),
        Inr (SessionResponse ''key''), Inr (SessionResponse ''key2''),
        Inr (ErrorResponse (RexProScriptException m)),
        Inr (SessionResponse ''key2''), Inr (SessionResponse ''key3''),
        Inr (ErrorResponse (RexProScriptException m))]"

text \<open>A pool whose defaults include credentials and a timeout, with no idle connection.\<close>

definition demo_pool :: connection_pool where
  "demo_pool =
     \<lparr>host = Atom (StrV ''db1''), port = Atom (IntV 8184), graph_name = Atom (StrV ''graph''),
      graph_obj_name = Atom (StrV ''g''), username = Atom (StrV ''admin''),
      password = Atom (StrV ''secret''), timeout = Atom (IntV 30), pool = []\<rparr>"

text \<open>A body for a transaction scope: one query through \<^verbatim>\<open>execute\<close>.\<close>

definition query_body :: "conn \<Rightarrow> results option result \<times> conn" where
  "query_body s = execute ''g.V().count()'' [] True True s"

section \<open>Basic facts\<close>

lemma attempts: "[0 ..< CONNECTION_ATTEMPTS] = [0, 1, 2]"
  unfolding CONNECTION_ATTEMPTS_def by (simp add: upt_rec numeral_eq_Suc)

lemma open_conn_unfold: "open_conn soft s = open_loop [0, 1, 2] soft s"
  unfolding open_conn_def attempts ..

lemma execute_unfold:
  "execute script params isolate tx s = execute_loop [0, 1, 2] script params isolate tx s"
  unfolding execute_def attempts ..

lemmas io_defs = send_message_def get_response_def sock_connect_def sock_select_def
  sock_shutdown_def sock_close_def

lemmas eval_defs = io_defs open_conn_unfold execute_unfold open_attempt_def draw_host_def
  draw_port_def choice_def handshake_def open_session_def connection_failed_def close_conn_def
  execute_try_def open_transaction_def close_transaction_def test_connection_def
  transaction_def reconnect_try_def raise_exception_def CONNECTION_ATTEMPTS_def Let_def
  new_conn_def init_conn_def demo_conn_def scripted_def nth_or_def

lemmas untouched_defs = untouched_def same_config_def

lemma script_flags_append [simp]: "script_flags (xs @ ys) = script_flags xs @ script_flags ys"
  by (induction xs rule: script_flags.induct) auto

text \<open>What the calls into the socket backend do to the connection object.\<close>

lemma send_message_cases:
  assumes "send_message m s = (r, s')"
  shows "(r = Raise AttributeError \<and> s' = s \<and> sock s = None) \<or>
         (sock s \<noteq> None \<and> s' = s\<lparr>n_send := Suc (n_send s), sent := sent s @ [m]\<rparr> \<and>
          r = (case w_send (env s) (n_send s) of None \<Rightarrow> Ok () | Some x \<Rightarrow> Raise (SocketError x)))"
  using assms by (auto simp: send_message_def split: option.splits)

lemma get_response_cases:
  assumes "get_response s = (r, s')"
  shows "(r = Raise AttributeError \<and> s' = s \<and> sock s = None) \<or>
         (sock s \<noteq> None \<and> s' = s\<lparr>n_recv := Suc (n_recv s)\<rparr> \<and>
          r = (case w_recv (env s) (n_recv s) of Inl x \<Rightarrow> Raise (SocketError x) | Inr x \<Rightarrow> Ok x))"
  using assms by (auto simp: get_response_def split: option.splits)

lemma sock_connect_cases:
  assumes "sock_connect s = (r, s')"
  shows "(r = Raise AttributeError \<and> s' = s \<and> sock s = None) \<or>
         (sock s \<noteq> None \<and> s' = s\<lparr>n_connect := Suc (n_connect s)\<rparr> \<and>
          r = (case w_connect (env s) (n_connect s) of None \<Rightarrow> Ok () | Some x \<Rightarrow> Raise (SocketError x)))"
  using assms by (auto simp: sock_connect_def split: option.splits)

section \<open>close\<close>

lemma close_conn_result:
  assumes "close_conn soft s = (r, s')"
  shows "untouched s s'"
    and "(\<exists>e. r = Raise e \<and> opened s' = opened s \<and> session_key s' = session_key s \<and>
              in_transaction s' = in_transaction s) \<or>
         (session_key s' = None \<and> \<not> in_transaction s' \<and> opened s' = (soft \<and> opened s))"
proof -
  let ?m = "SessionKillRequest (session_key s) (graph_name s)"
  obtain r1 s1 where a: "send_message ?m s = (r1, s1)" by (cases "send_message ?m s")
  obtain r2 s2 where b: "get_response s1 = (r2, s2)" by (cases "get_response s1")
  note c = send_message_cases [OF a] get_response_cases [OF b]
  show "untouched s s'"
    using c assms a b
    by (cases soft) (auto simp: close_conn_def untouched_defs Let_def split: result.splits response.splits)
  show "(\<exists>e. r = Raise e \<and> opened s' = opened s \<and> session_key s' = session_key s \<and>
              in_transaction s' = in_transaction s) \<or>
         (session_key s' = None \<and> \<not> in_transaction s' \<and> opened s' = (soft \<and> opened s))"
    using c assms a b
    by (cases soft) (auto simp: close_conn_def Let_def split: result.splits response.splits)
qed

text \<open>
  C7, amended. For a connection that has a socket: when the session-close request is sent
  and a response arrives, \<^verbatim>\<open>close\<close> clears \<^verbatim>\<open>session_key\<close> and \<^verbatim>\<open>in_transaction\<close>, leaves
  \<^verbatim>\<open>opened\<close> as it is when soft and sets it to false when hard, leaves the socket handle as
  it is, and raises exactly when the response is an error response. When sending or
  receiving itself raises, that error leaves \<^verbatim>\<open>close\<close> and none of these fields changes.
\<close>

theorem close_clears_state_once_answered:
  assumes "sock s \<noteq> None"
  shows "(w_send (env s) (n_send s) = None \<and> w_recv (env s) (n_recv s) = Inr r \<longrightarrow>
            session_key (snd (close_conn soft s)) = None \<and>
            \<not> in_transaction (snd (close_conn soft s)) \<and>
            opened (snd (close_conn soft s)) = (soft \<and> opened s) \<and>
            sock (snd (close_conn soft s)) = sock s \<and>
            fst (close_conn soft s) = (case r of ErrorResponse e \<Rightarrow> Raise (RexPro e) | _ \<Rightarrow> Ok ())) \<and>
         (w_send (env s) (n_send s) = Some m \<or>
          w_send (env s) (n_send s) = None \<and> w_recv (env s) (n_recv s) = Inl m \<longrightarrow>
            fst (close_conn soft s) = Raise (SocketError m) \<and>
            session_key (snd (close_conn soft s)) = session_key s \<and>
            in_transaction (snd (close_conn soft s)) = in_transaction s \<and>
            opened (snd (close_conn soft s)) = opened s \<and>
            sock (snd (close_conn soft s)) = sock s)"
  using assms
  by (cases soft) (auto simp: close_conn_def io_defs raise_exception_def Let_def split: response.splits)


theorem close_clears_state_once_answered_witness:
  "session_key (snd (close_conn False (snd (open_conn False (demo_conn (scripted [] []
      [Inr (SessionResponse ''key''), Inr (ErrorResponse (RexProInvalidSessionException ''gone''))])))))) = None \<and>
   fst (close_conn False (snd (open_conn False (demo_conn (scripted [] []
      [Inr (SessionResponse ''key''), Inr (ErrorResponse (RexProInvalidSessionException ''gone''))]))))) =
     Raise (RexPro (RexProInvalidSessionException ''gone''))"
proof -
  let ?w = "scripted [] [] [Inr (SessionResponse ''key''), Inr (ErrorResponse (RexProInvalidSessionException ''gone''))]"
  let ?c = "snd (open_conn False (demo_conn ?w))"
  have a: "sock ?c \<noteq> None" by (simp add: eval_defs cong: prod.case_cong_weak)
  have b: "w_send (env ?c) (n_send ?c) = None" by (simp add: eval_defs cong: prod.case_cong_weak)
  have c: "w_recv (env ?c) (n_recv ?c) = Inr (ErrorResponse (RexProInvalidSessionException ''gone''))"
    by (simp add: eval_defs cong: prod.case_cong_weak)
  show ?thesis
    using close_clears_state_once_answered [OF a, of "ErrorResponse (RexProInvalidSessionException ''gone'')" False]
      b c by simp
qed

text \<open>
  C7 as stated fails: after a successful \<^verbatim>\<open>open\<close>, a hard \<^verbatim>\<open>close\<close> whose request cannot be
  sent raises and leaves \<^verbatim>\<open>opened\<close> true and the session key in place.
\<close>

theorem close_keeps_state_when_send_fails:
  "fst (close_conn False (snd (open_conn False (demo_conn (scripted [] [None, Some ''broken pipe'']
      [Inr (SessionResponse ''key'')]))))) = Raise (SocketError ''broken pipe'') \<and>
   opened (snd (close_conn False (snd (open_conn False (demo_conn (scripted [] [None, Some ''broken pipe'']
      [Inr (SessionResponse ''key'')])))))) \<and>
   session_key (snd (close_conn False (snd (open_conn False (demo_conn (scripted [] [None, Some ''broken pipe'']
      [Inr (SessionResponse ''key'')])))))) = Some ''key''"
  by (simp add: eval_defs cong: prod.case_cong_weak)

section \<open>Misuse of the transaction methods\<close>

text \<open>
  C6, amended. \<^verbatim>\<open>open_transaction\<close> on a connection that is in a transaction, and
  \<^verbatim>\<open>close_transaction\<close> on one that is not, raise \<^verbatim>\<open>RexProScriptException\<close> with the
  texts \<open>transaction is already open\<close> and \<open>transaction is not open\<close>, before anything is
  sent; \<^verbatim>\<open>in_transaction\<close> and every other field of the connection stay as they were.
\<close>

theorem transaction_misuse_raises:
  "(in_transaction s \<longrightarrow>
      open_transaction s =
        (Raise (RexPro (RexProScriptException ''transaction is already open'')),
         s\<lparr>calls := calls s @ [CallOpenTransaction]\<rparr>) \<and>
      in_transaction (snd (open_transaction s))) \<and>
   (\<not> in_transaction s \<longrightarrow>
      close_transaction success s =
        (Raise (RexPro (RexProScriptException ''transaction is not open'')),
         s\<lparr>calls := calls s @ [CallCloseTransaction success]\<rparr>) \<and>
      \<not> in_transaction (snd (close_transaction success s)))"
  by (simp add: open_transaction_def close_transaction_def Let_def)

theorem transaction_misuse_raises_witness:
  "in_transaction (snd (open_transaction (snd (open_conn False (demo_conn (scripted [] []
      [Inr (SessionResponse ''key''), Inr (ScriptResponse [])])))))) \<and>
   fst (open_transaction (snd (open_transaction (snd (open_conn False (demo_conn (scripted [] []
      [Inr (SessionResponse ''key''), Inr (ScriptResponse [])]))))))) =
     Raise (RexPro (RexProScriptException ''transaction is already open'')) \<and>
   \<not> in_transaction (snd (open_conn False (demo_conn (scripted [] []
      [Inr (SessionResponse ''key''), Inr (ScriptResponse [])])))) \<and>
   fst (close_transaction True (snd (open_conn False (demo_conn (scripted [] []
      [Inr (SessionResponse ''key''), Inr (ScriptResponse [])]))))) =
     Raise (RexPro (RexProScriptException ''transaction is not open''))"
proof -
  let ?c = "snd (open_conn False (demo_conn (scripted [] []
      [Inr (SessionResponse ''key''), Inr (ScriptResponse [])])))"
  have a: "in_transaction (snd (open_transaction ?c))"
    by (simp add: eval_defs cong: prod.case_cong_weak)
  have b: "\<not> in_transaction ?c"
    by (simp add: eval_defs cong: prod.case_cong_weak)
  show ?thesis
    using transaction_misuse_raises [of "snd (open_transaction ?c)" True]
      transaction_misuse_raises [of ?c True] a b
    by simp
qed

text \<open>
  C6 as stated fails: the exception is not of a kind kept for misuse by the caller. A
  connection that is not in a transaction, whose \<^verbatim>\<open>open_transaction\<close> script the server
  answers with a script error in every attempt, raises the same \<^verbatim>\<open>RexProScriptException\<close>;
  when the server's text is \<open>transaction is already open\<close>, the very same value.
\<close>

theorem script_error_raises_the_same_fault:
  "\<not> in_transaction (snd (demo_init (script_error_world ''No such property: x''))) \<and>
   fst (open_transaction (snd (demo_init (script_error_world ''No such property: x'')))) =
     Raise (RexPro (RexProScriptException ''No such property: x'')) \<and>
   \<not> in_transaction (snd (demo_init (script_error_world ''transaction is already open''))) \<and>
   fst (open_transaction (snd (demo_init (script_error_world ''transaction is already open'')))) =
     Raise (RexPro (RexProScriptException ''transaction is already open''))"
  by (simp add: script_error_world_def demo_init_def eval_defs cong: prod.case_cong_weak)

section \<open>Shutting the pool down\<close>

declare close_all_loop.simps [simp del]

lemma close_all_loop_eq:
  "close_all_loop self done =
     (Ok (), self\<lparr>pool := []\<rparr>, done @ map (\<lambda>c. snd (close_conn False c)) (pool self))"
proof (induction "pool self" arbitrary: self "done")
  case Nil
  then have "pool self = []" by simp
  then show ?case by (subst close_all_loop.simps) simp
next
  case (Cons c q)
  let ?self' = "self\<lparr>pool := tl (pool self)\<rparr>"
  let ?c' = "snd (close_conn False c)"
  have p: "pool self = c # q" using Cons.hyps(2) by simp
  have q: "q = pool ?self'" using p by simp
  have step: "close_all_loop ?self' (done @ [?c']) =
              (Ok (), ?self'\<lparr>pool := []\<rparr>,
               (done @ [?c']) @ map (\<lambda>c. snd (close_conn False c)) (pool ?self'))"
    by (rule Cons.hyps(1) [OF q])
  have unfold: "close_all_loop self done = close_all_loop ?self' (done @ [?c'])"
    by (subst close_all_loop.simps, cases "close_conn False c", cases "fst (close_conn False c)")
       (simp_all add: p Let_def)
  show ?case unfolding unfold step by (simp add: p)
qed

text \<open>
  C9. \<^verbatim>\<open>close_all\<close> never raises, leaves the idle queue empty, and has called a hard
  \<^verbatim>\<open>close\<close> on every connection that was in the queue, whatever that call did or raised.
\<close>

theorem close_all_drains_quietly:
  "close_all self =
     (Ok (), self\<lparr>pool := []\<rparr>, map (\<lambda>c. snd (close_conn False c)) (pool self))"
  unfolding close_all_def by (simp only: close_all_loop_eq append_Nil)

section \<open>Overrides at connection creation\<close>

text \<open>
  C8. With an empty user name and a timeout of \<open>0\<close> passed as overrides to a pool whose
  defaults are \<open>admin\<close> and \<open>30\<close>, the connection is constructed with the pool's values.
\<close>

theorem falsy_overrides_lose:
  "fst (private_create_connection (scripted [] [] [Inr (SessionResponse ''key'')])
          (Atom NoneV) (Atom NoneV) (Atom NoneV) (Atom NoneV) (Atom (StrV [])) (Atom NoneV)
          (Atom (IntV 0)) demo_pool) = Ok () \<and>
   username (snd (private_create_connection (scripted [] [] [Inr (SessionResponse ''key'')])
          (Atom NoneV) (Atom NoneV) (Atom NoneV) (Atom NoneV) (Atom (StrV [])) (Atom NoneV)
          (Atom (IntV 0)) demo_pool)) = Atom (StrV ''admin'') \<and>
   timeout (snd (private_create_connection (scripted [] [] [Inr (SessionResponse ''key'')])
          (Atom NoneV) (Atom NoneV) (Atom NoneV) (Atom NoneV) (Atom (StrV [])) (Atom NoneV)
          (Atom (IntV 0)) demo_pool)) = Atom (IntV 30)"
  by (simp add: private_create_connection_def demo_pool_def py_or_def eval_defs
      cong: prod.case_cong_weak)

section \<open>Opening a connection\<close>

lemma untouched_quiet: "untouched s s' \<Longrightarrow> quiet s s'"
  by (simp add: untouched_def quiet_def)

lemma quiet_refl [simp]: "quiet s s"
  by (simp add: quiet_def same_config_def)

lemma quiet_trans: "quiet s t \<Longrightarrow> quiet t u \<Longrightarrow> quiet s u"
  by (simp add: quiet_def same_config_def)

lemmas quiet_defs = quiet_def same_config_def

lemma open_session_result:
  assumes "open_session s = (r, s')"
  shows "untouched s s'" and "opened s' = opened s" and "in_transaction s' = in_transaction s"
    and "r = Ok () \<Longrightarrow>
           \<exists>k. session_key s' = Some k \<and> w_recv (env s') (n_recv s' - 1) = Inr (SessionResponse k)"
    and "r \<noteq> Ok () \<Longrightarrow> session_key s' = session_key s"
proof -
  let ?m = "SessionOpenRequest (username s) (password s) (graph_name s)"
  obtain r1 s1 where a: "send_message ?m s = (r1, s1)" by (cases "send_message ?m s")
  obtain r2 s2 where b: "get_response s1 = (r2, s2)" by (cases "get_response s1")
  note c = send_message_cases [OF a] get_response_cases [OF b]
  show "untouched s s'"
    using c assms a b
    by (auto simp: open_session_def untouched_defs split: result.splits response.splits)
  show "opened s' = opened s"
    using c assms a b
    by (auto simp: open_session_def split: result.splits response.splits)
  show "in_transaction s' = in_transaction s"
    using c assms a b
    by (auto simp: open_session_def split: result.splits response.splits)
  show "r = Ok () \<Longrightarrow>
          \<exists>k. session_key s' = Some k \<and> w_recv (env s') (n_recv s' - 1) = Inr (SessionResponse k)"
    using c assms a b
    by (auto simp: open_session_def split: result.splits response.splits sum.splits)
  show "r \<noteq> Ok () \<Longrightarrow> session_key s' = session_key s"
    using c assms a b
    by (auto simp: open_session_def split: result.splits response.splits)
qed

lemma handshake_result:
  assumes "handshake s = (a, s')"
  shows "untouched s s'" and "opened s'" and "\<not> in_transaction s'"
    and "a = Established \<or> (\<exists>e. a = HandshakeFailed e)"
    and "a = Established \<Longrightarrow>
           \<exists>k. session_key s' = Some k \<and> w_recv (env s') (n_recv s' - 1) = Inr (SessionResponse k)"
    and "a \<noteq> Established \<Longrightarrow> session_key s' = None"
proof -
  let ?s = "s\<lparr>in_transaction := False, session_key := None, opened := True\<rparr>"
  obtain r s1 where o: "open_session ?s = (r, s1)" by (cases "open_session ?s")
  note f = open_session_result [OF o]
  have s1: "s' = s1" and a: "a = (case r of Ok _ \<Rightarrow> Established | Raise e \<Rightarrow> HandshakeFailed e)"
    using assms o by (auto simp: handshake_def split: result.splits)
  show "untouched s s'" using f(1) s1 by (simp add: untouched_defs)
  show "opened s'" using f(2) s1 by simp
  show "\<not> in_transaction s'" using f(3) s1 by simp
  show "a = Established \<or> (\<exists>e. a = HandshakeFailed e)" using a by (cases r) auto
  show "a = Established \<Longrightarrow>
          \<exists>k. session_key s' = Some k \<and> w_recv (env s') (n_recv s' - 1) = Inr (SessionResponse k)"
    using f(4) a s1 by (cases r) auto
  show "a \<noteq> Established \<Longrightarrow> session_key s' = None"
    using f(5) a s1 by (cases r) auto
qed

lemma connection_failed_result:
  assumes "connection_failed s = (r, s')"
  shows "quiet s s'" and "session_same s s'"
    and "current_host s' = current_host s" and "current_port s' = current_port s"
  using assms
  by (auto simp: connection_failed_def quiet_defs session_same_def Let_def
      split: result.splits if_splits)

lemma draw_host_result:
  assumes "draw_host s = (r, s')"
  shows "quiet s s'" and "session_same s s'"
    and "host_blacklist s' = host_blacklist s" and "port_blacklist s' = port_blacklist s"
    and "current_port s' = current_port s"
  using assms
  by (auto simp: draw_host_def quiet_defs session_same_def split: result.splits pyval.splits)

lemma draw_port_result:
  assumes "draw_port s = (r, s')"
  shows "quiet s s'" and "session_same s s'"
    and "host_blacklist s' = host_blacklist s" and "port_blacklist s' = port_blacklist s"
    and "current_host s' = current_host s"
  using assms
  by (auto simp: draw_port_def quiet_defs session_same_def split: result.splits pyval.splits)

lemma sock_connect_result:
  assumes "sock_connect s = (r, s')"
  shows "untouched s s'" and "session_same s s'"
  using sock_connect_cases [OF assms]
  by (auto simp: untouched_defs session_same_def)

text \<open>
  What an attempt leaves behind: only an attempt that is not soft can fail at connect or
  be left by an exception of a draw, and it has not touched the session state then; an
  attempt that reached the handshake has set \<^verbatim>\<open>opened\<close>, and holds a session key exactly
  when the handshake succeeded.
\<close>

lemma open_attempt_result:
  assumes "open_attempt soft s = (a, s')"
  shows "quiet s s'"
    and "a = Established \<Longrightarrow> opened s' \<and> \<not> in_transaction s' \<and>
           (\<exists>k. session_key s' = Some k \<and> w_recv (env s') (n_recv s' - 1) = Inr (SessionResponse k))"
    and "a = HandshakeFailed e \<Longrightarrow> opened s' \<and> \<not> in_transaction s' \<and> session_key s' = None"
    and "a = ConnectFailed e \<or> a = Escaped e \<Longrightarrow>
           \<not> soft \<and> opened s' = opened s \<and> session_key s' = session_key s \<and>
           in_transaction s' = in_transaction s"
proof -
  have all: "quiet s s' \<and>
     (a = Established \<longrightarrow> opened s' \<and> \<not> in_transaction s' \<and>
           (\<exists>k. session_key s' = Some k \<and> w_recv (env s') (n_recv s' - 1) = Inr (SessionResponse k))) \<and>
     (a = HandshakeFailed e \<longrightarrow> opened s' \<and> \<not> in_transaction s' \<and> session_key s' = None) \<and>
     (a = ConnectFailed e \<or> a = Escaped e \<longrightarrow>
           \<not> soft \<and> opened s' = opened s \<and> session_key s' = session_key s \<and>
           in_transaction s' = in_transaction s)"
  proof (cases soft)
    case True
    then have h: "handshake s = (a, s')" using assms by (simp add: open_attempt_def)
    show ?thesis
      using handshake_result [OF h] untouched_quiet [of s s'] by auto
  next
    case False
    let ?s1 = "s\<lparr>sock := Some (n_sock s), n_sock := Suc (n_sock s)\<rparr>"
    obtain r2 s2 where d1: "draw_host ?s1 = (r2, s2)" by (cases "draw_host ?s1")
    obtain r3 s3 where d2: "draw_port s2 = (r3, s3)" by (cases "draw_port s2")
    obtain r4 s4 where d3: "sock_connect s3 = (r4, s4)" by (cases "sock_connect s3")
    obtain a5 s5 where d4: "handshake s4 = (a5, s5)" by (cases "handshake s4")
    note f1 = draw_host_result(1,2) [OF d1]
    note f2 = draw_port_result(1,2) [OF d2]
    note f3 = sock_connect_result [OF d3]
    note f4 = handshake_result [OF d4]
    have q1: "quiet s s2" using f1(1) by (simp add: quiet_defs)
    have q2: "quiet s s3" using q1 f2(1) by (rule quiet_trans)
    have q3: "quiet s s4" using q2 untouched_quiet [OF f3(1)] by (rule quiet_trans)
    have q4: "quiet s s5" using q3 untouched_quiet [OF f4(1)] by (rule quiet_trans)
    have k1: "opened s2 = opened s \<and> session_key s2 = session_key s \<and> in_transaction s2 = in_transaction s"
      using f1(2) by (simp add: session_same_def)
    have k2: "opened s3 = opened s \<and> session_key s3 = session_key s \<and> in_transaction s3 = in_transaction s"
      using k1 f2(2) by (simp add: session_same_def)
    have k3: "opened s4 = opened s \<and> session_key s4 = session_key s \<and> in_transaction s4 = in_transaction s"
      using k2 f3(2) by (simp add: session_same_def)
    show ?thesis
    proof (cases r2)
      case (Raise e2)
      then show ?thesis using assms False d1 q1 k1 by (auto simp: open_attempt_def Let_def)
    next
      case (Ok u2)
      show ?thesis
      proof (cases r3)
        case (Raise e3)
        then show ?thesis using assms False d1 d2 Ok q2 k2 by (auto simp: open_attempt_def Let_def)
      next
        case Ok3: (Ok u3)
        show ?thesis
        proof (cases r4)
          case (Raise e4)
          then show ?thesis
            using assms False d1 d2 d3 Ok Ok3 q3 k3 by (auto simp: open_attempt_def Let_def)
        next
          case Ok4: (Ok u4)
          then have "a = a5" "s' = s5"
            using assms False d1 d2 d3 d4 Ok Ok3 by (auto simp: open_attempt_def Let_def)
          then show ?thesis using f4 q4 by auto
        qed
      qed
    qed
  qed
  show "quiet s s'" using all by simp
  show "a = Established \<Longrightarrow> opened s' \<and> \<not> in_transaction s' \<and>
           (\<exists>k. session_key s' = Some k \<and> w_recv (env s') (n_recv s' - 1) = Inr (SessionResponse k))"
    using all by simp
  show "a = HandshakeFailed e \<Longrightarrow> opened s' \<and> \<not> in_transaction s' \<and> session_key s' = None"
    using all by simp
  show "a = ConnectFailed e \<or> a = Escaped e \<Longrightarrow>
           \<not> soft \<and> opened s' = opened s \<and> session_key s' = session_key s \<and>
           in_transaction s' = in_transaction s"
    using all by simp
qed

lemma open_loop_quiet: "quiet s (snd (open_loop is soft s))"
proof (induction "is" arbitrary: soft s)
  case Nil
  show ?case by simp
next
  case (Cons i "is")
  obtain a s1 where a: "open_attempt soft s = (a, s1)" by (cases "open_attempt soft s")
  obtain r s2 where r: "connection_failed s1 = (r, s2)" by (cases "connection_failed s1")
  have q1: "quiet s s1" by (rule open_attempt_result(1) [OF a])
  have q2: "quiet s s2" using q1 connection_failed_result(1) [OF r] by (rule quiet_trans)
  have q3: "\<And>b. quiet s (snd (open_loop is b s2))" using q2 Cons.IH by (rule quiet_trans)
  show ?case using a r q1 q2 q3 by (cases a; cases r) auto
qed

lemma open_conn_quiet: "quiet s (snd (open_conn soft s))"
  by (simp add: open_conn_def open_loop_quiet)

lemma open_loop_key:
  assumes "session_key s \<noteq> None \<longrightarrow> opened s"
  shows "session_key (snd (open_loop is soft s)) \<noteq> None \<longrightarrow> opened (snd (open_loop is soft s))"
  using assms
proof (induction "is" arbitrary: soft s)
  case Nil
  then show ?case by simp
next
  case (Cons i "is")
  obtain a s1 where a: "open_attempt soft s = (a, s1)" by (cases "open_attempt soft s")
  obtain r s2 where r: "connection_failed s1 = (r, s2)" by (cases "connection_failed s1")
  note f = open_attempt_result [OF a]
  have k1: "session_key s1 \<noteq> None \<longrightarrow> opened s1"
    using f(2) f(3) f(4) Cons.prems by (cases a) auto
  have k2: "session_key s2 \<noteq> None \<longrightarrow> opened s2"
    using k1 connection_failed_result(2) [OF r] by (simp add: session_same_def)
  have k3: "\<And>b. session_key (snd (open_loop is b s2)) \<noteq> None \<longrightarrow> opened (snd (open_loop is b s2))"
    using k2 by (rule Cons.IH)
  show ?case using a r k1 k2 k3 by (cases a; cases r) auto
qed

lemma open_conn_key:
  "session_key s \<noteq> None \<longrightarrow> opened s \<Longrightarrow>
   session_key (snd (open_conn soft s)) \<noteq> None \<longrightarrow> opened (snd (open_conn soft s))"
  by (simp add: open_conn_def open_loop_key)

text \<open>
  C1, amended. Let the first two attempts of \<^verbatim>\<open>open\<close> fail, at connect or at the
  handshake, with \<^verbatim>\<open>connection_failed\<close> returning after each. If the third attempt's
  connect and handshake succeed, \<^verbatim>\<open>open\<close> returns with \<^verbatim>\<open>opened\<close> set, no transaction
  and the session key of the response just received. If the third attempt fails at the
  handshake, \<^verbatim>\<open>open\<close> raises the exception of that handshake itself, whatever its kind.
\<close>

theorem open_third_attempt_decides:
  assumes "open_attempt soft s = (a1, s1)" and "failed a1" and "connection_failed s1 = (Ok (), t1)"
    and "open_attempt False t1 = (a2, s2)" and "failed a2" and "connection_failed s2 = (Ok (), t2)"
    and "open_attempt False t2 = (a3, s3)"
  shows "(a3 = Established \<longrightarrow>
            open_conn soft s = (Ok (), s3) \<and> opened s3 \<and> \<not> in_transaction s3 \<and>
            (\<exists>k. session_key s3 = Some k \<and>
                 w_recv (env s3) (n_recv s3 - 1) = Inr (SessionResponse k))) \<and>
         (\<forall>e t3. a3 = HandshakeFailed e \<and> connection_failed s3 = (Ok (), t3) \<longrightarrow>
            open_conn soft s = (Raise e, t3))"
proof -
  have soft1: "\<And>e. a1 = ConnectFailed e \<Longrightarrow> \<not> soft"
    using open_attempt_result(4) [OF assms(1)] by simp
  have two: "open_conn soft s = open_loop [2] False t2"
    using assms(1-6) soft1
    by (cases a1; cases a2) (simp_all add: open_conn_unfold CONNECTION_ATTEMPTS_def)
  have est: "a3 = Established \<Longrightarrow> open_conn soft s = (Ok (), s3)"
    using two assms(7) by simp
  have hs: "\<And>e t3. a3 = HandshakeFailed e \<Longrightarrow> connection_failed s3 = (Ok (), t3) \<Longrightarrow>
               open_conn soft s = (Raise e, t3)"
    using two assms(7) by (simp add: CONNECTION_ATTEMPTS_def)
  show ?thesis
    using est hs open_attempt_result(2) [OF assms(7)] by blast
qed

theorem open_third_attempt_decides_witness:
  "failed (fst (open_attempt False (demo_conn (scripted [Some ''refused'', Some ''refused''] []
      [Inr (SessionResponse ''key'')])))) \<and>
   open_conn False (demo_conn (scripted [Some ''refused'', Some ''refused''] []
      [Inr (SessionResponse ''key'')])) =
     (Ok (),
      snd (open_attempt False (snd (connection_failed (snd (open_attempt False
        (snd (connection_failed (snd (open_attempt False (demo_conn
          (scripted [Some ''refused'', Some ''refused''] []
             [Inr (SessionResponse ''key'')])))))))))))) \<and>
   opened (snd (open_conn False (demo_conn (scripted [Some ''refused'', Some ''refused''] []
      [Inr (SessionResponse ''key'')])))) \<and>
   session_key (snd (open_conn False (demo_conn (scripted [Some ''refused'', Some ''refused''] []
      [Inr (SessionResponse ''key'')])))) = Some ''key''"
proof -
  let ?c = "demo_conn (scripted [Some ''refused'', Some ''refused''] [] [Inr (SessionResponse ''key'')])"
  let ?a1 = "fst (open_attempt False ?c)" let ?s1 = "snd (open_attempt False ?c)"
  let ?t1 = "snd (connection_failed ?s1)"
  let ?a2 = "fst (open_attempt False ?t1)" let ?s2 = "snd (open_attempt False ?t1)"
  let ?t2 = "snd (connection_failed ?s2)"
  let ?a3 = "fst (open_attempt False ?t2)" let ?s3 = "snd (open_attempt False ?t2)"
  have h1: "open_attempt False ?c = (?a1, ?s1)" by simp
  have h2: "failed ?a1" by (simp add: eval_defs cong: prod.case_cong_weak)
  have h3: "connection_failed ?s1 = (Ok (), ?t1)"
    by (simp add: eval_defs cong: prod.case_cong_weak)
  have h4: "open_attempt False ?t1 = (?a2, ?s2)" by simp
  have h5: "failed ?a2" by (simp add: eval_defs cong: prod.case_cong_weak)
  have h6: "connection_failed ?s2 = (Ok (), ?t2)"
    by (simp add: eval_defs cong: prod.case_cong_weak)
  have h7: "open_attempt False ?t2 = (?a3, ?s3)" by simp
  have h8: "?a3 = Established" by (simp add: eval_defs cong: prod.case_cong_weak)
  have h9: "session_key ?s3 = Some ''key''" by (simp add: eval_defs cong: prod.case_cong_weak)
  show ?thesis
    using open_third_attempt_decides [OF h1 h2 h3 h4 h5 h6 h7] h2 h8 h9 by simp
qed

text \<open>
  C1 as stated fails: when every connect succeeds and every handshake times out, all three
  attempts are used up and \<^verbatim>\<open>open\<close> raises the socket's own error, which is not a
  \<^verbatim>\<open>RexProConnectionException\<close>.
\<close>

theorem open_reraises_handshake_fault:
  "fst (open_conn False (demo_conn (scripted [] [] []))) = Raise (SocketError ''timed out'') \<and>
   n_connect (snd (open_conn False (demo_conn (scripted [] [] [])))) = 3 \<and>
   n_recv (snd (open_conn False (demo_conn (scripted [] [] [])))) = 3"
  by (simp add: eval_defs cong: prod.case_cong_weak)

text \<open>
  When all three attempts fail at connect, the loop of \<^verbatim>\<open>open\<close> runs out without reaching
  the \<^verbatim>\<open>raise\<close> of the handshake handler: \<^verbatim>\<open>open\<close> returns, and the connection is not
  opened.
\<close>

lemma open_returns_after_three_refused_connects:
  "open_conn False (demo_conn (scripted [Some ''refused'', Some ''refused'', Some ''refused''] [] []))
     = (Ok (), snd (open_conn False (demo_conn
          (scripted [Some ''refused'', Some ''refused'', Some ''refused''] [] [])))) \<and>
   \<not> opened (snd (open_conn False (demo_conn
          (scripted [Some ''refused'', Some ''refused'', Some ''refused''] [] [])))) \<and>
   n_connect (snd (open_conn False (demo_conn
          (scripted [Some ''refused'', Some ''refused'', Some ''refused''] [] [])))) = 3"
  by (simp add: eval_defs cong: prod.case_cong_weak)

section \<open>Executing a script\<close>

lemma demo_init_eq: "demo_init w = open_conn False (demo_conn w)"
  by (simp add: demo_init_def demo_conn_def init_conn_def)

lemma execute_try_result:
  assumes "execute_try script params isolate t s = (r, s')"
  shows "same_config s s'" and "calls s' = calls s" and "session_same s s'"
    and "host_blacklist s' = host_blacklist s \<and> port_blacklist s' = port_blacklist s \<and>
         current_host s' = current_host s \<and> current_port s' = current_port s"
    and "script_flags (sent s') = script_flags (sent s) @ (if sock s = None then [] else [t])"
proof -
  let ?m = "ScriptRequest script params (session_key s) isolate t"
  obtain r1 s1 where a: "send_message ?m s = (r1, s1)" by (cases "send_message ?m s")
  obtain r2 s2 where b: "get_response s1 = (r2, s2)" by (cases "get_response s1")
  note c = send_message_cases [OF a] get_response_cases [OF b]
  show "same_config s s'"
    using c assms a b
    by (auto simp: execute_try_def same_config_def split: result.splits response.splits)
  show "calls s' = calls s"
    using c assms a b
    by (auto simp: execute_try_def split: result.splits response.splits)
  show "session_same s s'"
    using c assms a b
    by (auto simp: execute_try_def session_same_def split: result.splits response.splits)
  show "host_blacklist s' = host_blacklist s \<and> port_blacklist s' = port_blacklist s \<and>
        current_host s' = current_host s \<and> current_port s' = current_port s"
    using c assms a b
    by (auto simp: execute_try_def split: result.splits response.splits)
  show "script_flags (sent s') = script_flags (sent s) @ (if sock s = None then [] else [t])"
    using c assms a b
    by (auto simp: execute_try_def split: result.splits response.splits)
qed

lemma py_len_raises: "py_len v = Raise e \<Longrightarrow> e = TypeError"
  by (cases v rule: py_len.cases) auto

lemma connection_failed_int_port:
  assumes "port s = Atom (IntV p)"
  shows "fst (connection_failed s) = Raise TypeError"
proof (cases "py_len (host s)")
  case (Raise e)
  then show ?thesis using py_len_raises [OF Raise] by (simp add: connection_failed_def Let_def)
next
  case (Ok n)
  then show ?thesis using assms by (simp add: connection_failed_def Let_def)
qed

lemma connection_failed_ok_iff:
  "fst (connection_failed s) = Ok () \<longleftrightarrow> has_len (host s) \<and> has_len (port s)"
  by (cases "py_len (host s)"; cases "py_len (port s)")
     (simp_all add: connection_failed_def has_len_def Let_def)

text \<open>
  C10. \<^verbatim>\<open>connection_failed\<close> takes \<^verbatim>\<open>len\<close> of the configured host and port themselves: it
  returns exactly when both have a length. With a port that is an integer it raises
  \<^verbatim>\<open>TypeError\<close>; so \<^verbatim>\<open>open\<close> raises \<^verbatim>\<open>TypeError\<close> as soon as an attempt fails at connect
  or at the handshake, and \<^verbatim>\<open>execute\<close> as soon as its request fails.
\<close>

theorem scalar_port_breaks_retry:
  "(port s = Atom (IntV p) \<longrightarrow>
      fst (connection_failed s) = Raise TypeError \<and>
      (failed (fst (open_attempt soft s)) \<longrightarrow> fst (open_conn soft s) = Raise TypeError) \<and>
      ((\<exists>e. fst (execute_try script params isolate (if in_transaction s then False else tx) s)
              = Raise e) \<longrightarrow>
         fst (execute script params isolate tx s) = Raise TypeError)) \<and>
   (fst (connection_failed s) = Ok () \<longleftrightarrow> has_len (host s) \<and> has_len (port s))"
proof -
  have open_part: "fst (open_conn soft s) = Raise TypeError"
    if p: "port s = Atom (IntV p)" and f: "failed (fst (open_attempt soft s))"
  proof -
    obtain a s1 where a: "open_attempt soft s = (a, s1)" by (cases "open_attempt soft s")
    obtain r s2 where r: "connection_failed s1 = (r, s2)" by (cases "connection_failed s1")
    have "port s1 = Atom (IntV p)"
      using open_attempt_result(1) [OF a] p by (simp add: quiet_defs)
    then have "r = Raise TypeError" using connection_failed_int_port [of s1 p] r by simp
    then show ?thesis
      using a r f by (cases a) (simp_all add: open_conn_unfold)
  qed
  have exec_part: "fst (execute script params isolate tx s) = Raise TypeError"
    if p: "port s = Atom (IntV p)"
      and f: "fst (execute_try script params isolate (if in_transaction s then False else tx) s) = Raise e"
    for e
  proof -
    let ?t = "if in_transaction s then False else tx"
    obtain r1 s1 where a: "execute_try script params isolate ?t s = (r1, s1)"
      by (cases "execute_try script params isolate ?t s")
    obtain r s2 where r: "connection_failed s1 = (r, s2)" by (cases "connection_failed s1")
    have "port s1 = Atom (IntV p)"
      using execute_try_result(1) [OF a] p by (simp add: same_config_def)
    then have "r = Raise TypeError" using connection_failed_int_port [of s1 p] r by simp
    moreover have "r1 = Raise e" using a f by simp
    ultimately show ?thesis
      using a r by (simp add: execute_unfold Let_def)
  qed
  show ?thesis
    using connection_failed_int_port [of s p] open_part exec_part connection_failed_ok_iff [of s]
    by blast
qed

theorem scalar_port_breaks_retry_witness:
  "fst (private_create_connection (scripted [Some ''refused''] [] [])
          (Atom NoneV) (Atom NoneV) (Atom NoneV) (Atom NoneV) (Atom NoneV) (Atom NoneV)
          (Atom NoneV) demo_pool) = Raise TypeError"
proof -
  let ?c = "new_conn (scripted [Some ''refused''] [] []) (Atom (StrV ''db1'')) (Atom (IntV 8184))
              (Atom (StrV ''graph'')) (Atom (StrV ''g'')) (Atom (StrV ''admin''))
              (Atom (StrV ''secret'')) (Atom (IntV 30))"
  have p: "port ?c = Atom (IntV 8184)" by (simp add: new_conn_def)
  have f: "failed (fst (open_attempt False ?c))"
    by (simp add: eval_defs cong: prod.case_cong_weak)
  have "fst (open_conn False ?c) = Raise TypeError"
    using scalar_port_breaks_retry [of ?c 8184 False] p f by simp
  then show ?thesis
    by (simp add: private_create_connection_def init_conn_def demo_pool_def py_or_def)
qed

lemma close_conn_quiet: "quiet s (snd (close_conn soft s))"
  using close_conn_result(1) [of soft s "fst (close_conn soft s)" "snd (close_conn soft s)"]
  by (simp add: untouched_quiet)

lemma close_conn_key:
  "session_key s \<noteq> None \<longrightarrow> opened s \<Longrightarrow>
   session_key (snd (close_conn soft s)) \<noteq> None \<longrightarrow> opened (snd (close_conn soft s))"
  using close_conn_result(2) [of soft s "fst (close_conn soft s)" "snd (close_conn soft s)"]
  by auto

text \<open>
  One pass through the handler of \<^verbatim>\<open>execute\<close>: from the state after the failed request
  to the state in which the next iteration starts (or the method is left).
\<close>

lemma execute_loop_step:
  "execute_loop (i # is) script params isolate tx s =
     (let t = (if in_transaction s then False else tx);
          (r1, s1) = execute_try script params isolate t s;
          (r2, s2) = connection_failed s1;
          (r3, s3) = close_conn False s2;
          (r4, s4) = open_conn False s3
      in case r1 of
           Ok v \<Rightarrow> (Ok (Some v), s1)
         | Raise e \<Rightarrow>
             (case r2 of
                Raise e' \<Rightarrow> (Raise e', s2)
              | Ok _ \<Rightarrow>
                  if i \<ge> CONNECTION_ATTEMPTS - 1 then (Raise e, s2)
                  else (case r3 of
                          Raise e' \<Rightarrow> (Raise e', s3)
                        | Ok _ \<Rightarrow>
                            (case r4 of
                               Raise e' \<Rightarrow> (Raise e', s4)
                             | Ok _ \<Rightarrow> execute_loop is script params isolate t s4))))"
  by (simp add: Let_def split: prod.splits result.splits)

lemma execute_loop_ends:
  assumes "execute_try script params isolate (if in_transaction s then False else tx) s = (r1, s1)"
    and "connection_failed s1 = (r2, s2)" and "close_conn False s2 = (r3, s3)"
    and "open_conn False s3 = (r4, s4)"
  shows "snd (execute_loop (i # is) script params isolate tx s) = s1 \<or>
         snd (execute_loop (i # is) script params isolate tx s) = s2 \<or>
         snd (execute_loop (i # is) script params isolate tx s) = s3 \<or>
         snd (execute_loop (i # is) script params isolate tx s) = s4 \<or>
         snd (execute_loop (i # is) script params isolate tx s) =
           snd (execute_loop is script params isolate (if in_transaction s then False else tx) s4)"
  unfolding execute_loop_step using assms by (simp add: Let_def split: result.splits)

lemma execute_loop_quiet_config:
  "same_config s (snd (execute_loop is script params isolate tx s)) \<and>
   calls (snd (execute_loop is script params isolate tx s)) = calls s"
proof (induction "is" arbitrary: s tx)
  case Nil
  show ?case by (simp add: same_config_def)
next
  case (Cons i "is")
  let ?t = "if in_transaction s then False else tx"
  obtain r1 s1 where a: "execute_try script params isolate ?t s = (r1, s1)"
    by (cases "execute_try script params isolate ?t s")
  obtain r2 s2 where b: "connection_failed s1 = (r2, s2)" by (cases "connection_failed s1")
  obtain r3 s3 where c: "close_conn False s2 = (r3, s3)" by (cases "close_conn False s2")
  obtain r4 s4 where d: "open_conn False s3 = (r4, s4)" by (cases "open_conn False s3")
  have e1: "same_config s s1 \<and> calls s1 = calls s"
    using execute_try_result(1,2) [OF a] by simp
  have e2: "same_config s s2 \<and> calls s2 = calls s"
    using e1 connection_failed_result(1) [OF b] by (simp add: quiet_defs)
  have e3: "same_config s s3 \<and> calls s3 = calls s"
    using e2 close_conn_quiet [of s2 False] c by (simp add: quiet_defs)
  have e4: "same_config s s4 \<and> calls s4 = calls s"
    using e3 open_conn_quiet [of s3 False] d by (simp add: quiet_defs)
  have e5: "same_config s (snd (execute_loop is script params isolate ?t s4)) \<and>
            calls (snd (execute_loop is script params isolate ?t s4)) = calls s"
    using e4 Cons.IH [of s4 ?t] by (simp add: same_config_def)
  show ?case
    using execute_loop_ends [OF a b c d, of i "is"] e1 e2 e3 e4 e5 by metis
qed

lemma execute_quiet_config:
  "same_config s (snd (execute script params isolate tx s)) \<and>
   calls (snd (execute script params isolate tx s)) = calls s"
  by (simp add: execute_def execute_loop_quiet_config)

lemma execute_loop_key:
  assumes "session_key s \<noteq> None \<longrightarrow> opened s"
  shows "session_key (snd (execute_loop is script params isolate tx s)) \<noteq> None \<longrightarrow>
         opened (snd (execute_loop is script params isolate tx s))"
  using assms
proof (induction "is" arbitrary: s tx)
  case Nil
  then show ?case by simp
next
  case (Cons i "is")
  let ?t = "if in_transaction s then False else tx"
  obtain r1 s1 where a: "execute_try script params isolate ?t s = (r1, s1)"
    by (cases "execute_try script params isolate ?t s")
  obtain r2 s2 where b: "connection_failed s1 = (r2, s2)" by (cases "connection_failed s1")
  obtain r3 s3 where c: "close_conn False s2 = (r3, s3)" by (cases "close_conn False s2")
  obtain r4 s4 where d: "open_conn False s3 = (r4, s4)" by (cases "open_conn False s3")
  have k1: "session_key s1 \<noteq> None \<longrightarrow> opened s1"
    using Cons.prems execute_try_result(3) [OF a] by (simp add: session_same_def)
  have k2: "session_key s2 \<noteq> None \<longrightarrow> opened s2"
    using k1 connection_failed_result(2) [OF b] by (simp add: session_same_def)
  have k3: "session_key s3 \<noteq> None \<longrightarrow> opened s3"
    using close_conn_key [OF k2, of False] c by simp
  have k4: "session_key s4 \<noteq> None \<longrightarrow> opened s4"
    using open_conn_key [OF k3, of False] d by simp
  note k5 = Cons.IH [OF k4, of ?t]
  show ?case
    using execute_loop_ends [OF a b c d, of i "is"] k1 k2 k3 k4 k5 by metis
qed

lemma execute_key:
  "session_key s \<noteq> None \<longrightarrow> opened s \<Longrightarrow>
   session_key (snd (execute script params isolate tx s)) \<noteq> None \<longrightarrow>
   opened (snd (execute script params isolate tx s))"
  by (simp add: execute_def execute_loop_key)

lemma execute_loop_flags:
  assumes "in_transaction s \<or> \<not> tx"
  shows "\<exists>n. script_flags (sent (snd (execute_loop is script params isolate tx s))) =
              script_flags (sent s) @ replicate n False \<and>
             (sock s \<noteq> None \<and> is \<noteq> [] \<longrightarrow> 0 < n)"
  using assms
proof (induction "is" arbitrary: s tx)
  case Nil
  show ?case by (rule exI [of _ 0]) simp
next
  case (Cons i "is")
  let ?t = "if in_transaction s then False else tx"
  have t: "?t = False" using Cons.prems by auto
  obtain r1 s1 where a: "execute_try script params isolate ?t s = (r1, s1)"
    by (cases "execute_try script params isolate ?t s")
  obtain r2 s2 where b: "connection_failed s1 = (r2, s2)" by (cases "connection_failed s1")
  obtain r3 s3 where c: "close_conn False s2 = (r3, s3)" by (cases "close_conn False s2")
  obtain r4 s4 where d: "open_conn False s3 = (r4, s4)" by (cases "open_conn False s3")
  let ?k = "if sock s = None then 0 else Suc 0"
  have f1: "script_flags (sent s1) = script_flags (sent s) @ replicate ?k False"
    using execute_try_result(5) [OF a] t by simp
  have f2: "script_flags (sent s2) = script_flags (sent s) @ replicate ?k False"
    using f1 connection_failed_result(1) [OF b] by (simp add: quiet_defs)
  have f3: "script_flags (sent s3) = script_flags (sent s) @ replicate ?k False"
    using f2 close_conn_quiet [of s2 False] c by (simp add: quiet_defs)
  have f4: "script_flags (sent s4) = script_flags (sent s) @ replicate ?k False"
    using f3 open_conn_quiet [of s3 False] d by (simp add: quiet_defs)
  obtain m where m: "script_flags (sent (snd (execute_loop is script params isolate ?t s4))) =
                       script_flags (sent s4) @ replicate m False"
    using Cons.IH [of s4 ?t] t by auto
  have f5: "script_flags (sent (snd (execute_loop is script params isolate ?t s4))) =
              script_flags (sent s) @ replicate (?k + m) False"
    using m f4 by (simp add: replicate_add)
  have pos: "sock s \<noteq> None \<longrightarrow> 0 < ?k \<and> 0 < ?k + m" by simp
  show ?case
    using execute_loop_ends [OF a b c d, of i "is"] f1 f2 f3 f4 f5 pos by metis
qed

text \<open>
  C5. When \<^verbatim>\<open>execute\<close> is called on a connection that is in a transaction, every script
  request it hands to \<^verbatim>\<open>send_message\<close>, in the first iteration and in every retry, carries
  \<^verbatim>\<open>in_transaction=False\<close>, whatever the \<^verbatim>\<open>transaction\<close> argument is; with a socket in place
  at least one such request is sent.
\<close>

theorem execute_in_transaction_sends_false:
  assumes "in_transaction s"
  shows "\<exists>n. script_flags (sent (snd (execute script params isolate tx s))) =
              script_flags (sent s) @ replicate n False \<and>
             (sock s \<noteq> None \<longrightarrow> 0 < n)"
  using execute_loop_flags [of s tx "[0, 1, 2]" script params isolate] assms
  by (auto simp: execute_unfold)

theorem execute_in_transaction_sends_false_witness:
  "in_transaction (snd (open_transaction (snd (demo_init (scripted [] []
      [Inr (SessionResponse ''key''), Inr (ScriptResponse []),
       Inr (ErrorResponse (RexProInvalidSessionException ''expired'')),
       Inr (SessionResponse ''key''), Inr (SessionResponse ''key2''),
       Inr (ScriptResponse [IntV 7])]))))) \<and>
   (\<exists>n. script_flags (sent (snd (execute ''g.V().count()'' [] True True
           (snd (open_transaction (snd (demo_init (scripted [] []
              [Inr (SessionResponse ''key''), Inr (ScriptResponse []),
               Inr (ErrorResponse (RexProInvalidSessionException ''expired'')),
               Inr (SessionResponse ''key''), Inr (SessionResponse ''key2''),
               Inr (ScriptResponse [IntV 7])])))))))) =
        script_flags (sent (snd (open_transaction (snd (demo_init (scripted [] []
              [Inr (SessionResponse ''key''), Inr (ScriptResponse []),
               Inr (ErrorResponse (RexProInvalidSessionException ''expired'')),
               Inr (SessionResponse ''key''), Inr (SessionResponse ''key2''),
               Inr (ScriptResponse [IntV 7])])))))) @ replicate n False \<and> 0 < n)"
proof -
  let ?w = "scripted [] []
      [Inr (SessionResponse ''key''), Inr (ScriptResponse []),
       Inr (ErrorResponse (RexProInvalidSessionException ''expired'')),
       Inr (SessionResponse ''key''), Inr (SessionResponse ''key2''),
       Inr (ScriptResponse [IntV 7])]"
  let ?c = "snd (open_transaction (snd (demo_init ?w)))"
  have a: "in_transaction ?c"
    by (simp add: demo_init_eq eval_defs cong: prod.case_cong_weak)
  have b: "sock ?c \<noteq> None"
    by (simp add: demo_init_eq eval_defs cong: prod.case_cong_weak)
  show ?thesis
    using execute_in_transaction_sends_false [OF a, of "''g.V().count()''" "[]" True True] a b
    by simp
qed

lemma execute_retry_example:
  "execute ''g.V().count()'' [] True True
     (snd (open_transaction (snd (demo_init (scripted [] []
        [Inr (SessionResponse ''key''), Inr (ScriptResponse []),
         Inr (ErrorResponse (RexProInvalidSessionException ''expired'')),
         Inr (SessionResponse ''key''), Inr (SessionResponse ''key2''),
         Inr (ScriptResponse [IntV 7])]))))) =
   (Ok (Some [IntV 7]),
    snd (execute ''g.V().count()'' [] True True
     (snd (open_transaction (snd (demo_init (scripted [] []
        [Inr (SessionResponse ''key''), Inr (ScriptResponse []),
         Inr (ErrorResponse (RexProInvalidSessionException ''expired'')),
         Inr (SessionResponse ''key''), Inr (SessionResponse ''key2''),
         Inr (ScriptResponse [IntV 7])]))))))) \<and>
   script_flags (sent (snd (execute ''g.V().count()'' [] True True
     (snd (open_transaction (snd (demo_init (scripted [] []
        [Inr (SessionResponse ''key''), Inr (ScriptResponse []),
         Inr (ErrorResponse (RexProInvalidSessionException ''expired'')),
         Inr (SessionResponse ''key''), Inr (SessionResponse ''key2''),
         Inr (ScriptResponse [IntV 7])])))))))) = [False, False, False]"
  by (simp add: demo_init_eq eval_defs cong: prod.case_cong_weak)

section \<open>The session key and the opened flag\<close>

lemma open_transaction_key:
  assumes "session_key s \<noteq> None \<longrightarrow> opened s"
  shows "session_key (snd (open_transaction s)) \<noteq> None \<longrightarrow> opened (snd (open_transaction s))"
proof -
  let ?s = "s\<lparr>calls := calls s @ [CallOpenTransaction]\<rparr>"
  have "session_key ?s \<noteq> None \<longrightarrow> opened ?s" using assms by simp
  from execute_key [OF this, of "''g.stopTransaction(FAILURE)''" "[]" False False]
  show ?thesis
    using assms
    by (auto simp: open_transaction_def Let_def split: prod.splits result.splits)
qed

lemma close_transaction_key:
  assumes "session_key s \<noteq> None \<longrightarrow> opened s"
  shows "session_key (snd (close_transaction success s)) \<noteq> None \<longrightarrow>
         opened (snd (close_transaction success s))"
proof -
  let ?s = "s\<lparr>calls := calls s @ [CallCloseTransaction success]\<rparr>"
  let ?script = "''g.stopTransaction('' @ (if success then ''SUCCESS'' else ''FAILURE'') @ '')''"
  have "session_key ?s \<noteq> None \<longrightarrow> opened ?s" using assms by simp
  from execute_key [OF this, of ?script "[]" False False]
  show ?thesis
    using assms
    by (auto simp: close_transaction_def Let_def split: prod.splits result.splits)
qed

lemma apply_op_key:
  assumes "session_key s \<noteq> None \<longrightarrow> opened s" and "x \<noteq> TestConnection"
  shows "session_key (snd (apply_op x s)) \<noteq> None \<longrightarrow> opened (snd (apply_op x s))"
proof (cases x)
  case (Open soft)
  then show ?thesis using open_conn_key [OF assms(1)] by simp
next
  case (Close soft)
  then show ?thesis using close_conn_key [OF assms(1)] by simp
next
  case OpenTransaction
  then show ?thesis using open_transaction_key [OF assms(1)] by simp
next
  case (CloseTransaction success)
  then show ?thesis using close_transaction_key [OF assms(1)] by simp
next
  case (Execute script params isolate tx)
  then show ?thesis
    using execute_key [OF assms(1), of script params isolate tx]
    by (auto split: prod.splits result.splits)
next
  case TestConnection
  then show ?thesis using assms(2) by simp
qed

lemma run_key:
  assumes "session_key s \<noteq> None \<longrightarrow> opened s" and "TestConnection \<notin> set ops"
  shows "session_key (run ops s) \<noteq> None \<longrightarrow> opened (run ops s)"
  using assms
proof (induction ops arbitrary: s)
  case Nil
  then show ?case by simp
next
  case (Cons x xs)
  have "session_key (snd (apply_op x s)) \<noteq> None \<longrightarrow> opened (snd (apply_op x s))"
    using apply_op_key [of s x] Cons.prems by auto
  then show ?case using Cons.IH [of "snd (apply_op x s)"] Cons.prems by simp
qed

text \<open>
  C2, amended. After construction and after every further call of \<^verbatim>\<open>open\<close>, \<^verbatim>\<open>close\<close>,
  \<^verbatim>\<open>open_transaction\<close>, \<^verbatim>\<open>close_transaction\<close> and \<^verbatim>\<open>execute\<close>, in any order and whether
  the calls return or raise, a session key is held only while \<^verbatim>\<open>opened\<close> is true.
\<close>

theorem session_key_only_while_opened:
  assumes "TestConnection \<notin> set ops"
  shows "session_key (run ops (snd (init_conn w h p g go u pw t))) \<noteq> None \<longrightarrow>
         opened (run ops (snd (init_conn w h p g go u pw t)))"
proof -
  have "session_key (new_conn w h p g go u pw t) \<noteq> None \<longrightarrow> opened (new_conn w h p g go u pw t)"
    by (simp add: new_conn_def)
  from open_conn_key [OF this, of False]
  have "session_key (snd (init_conn w h p g go u pw t)) \<noteq> None \<longrightarrow>
        opened (snd (init_conn w h p g go u pw t))"
    by (simp add: init_conn_def)
  then show ?thesis using assms by (rule run_key)
qed

theorem session_key_only_while_opened_witness:
  "session_key (run [Execute ''g.V()'' [] True True, Close True, Open True]
      (snd (init_conn (scripted [] [] [Inr (SessionResponse ''key''), Inr (ScriptResponse []),
           Inr (SessionResponse ''key''), Inr (SessionResponse ''key2'')])
        (Atom (StrV ''db1'')) (Atom (IntV 8184)) (Atom (StrV ''graph'')) (Atom (StrV ''g''))
        (Atom (StrV [])) (Atom (StrV [])) (Atom NoneV)))) = Some ''key2'' \<and>
   opened (run [Execute ''g.V()'' [] True True, Close True, Open True]
      (snd (init_conn (scripted [] [] [Inr (SessionResponse ''key''), Inr (ScriptResponse []),
           Inr (SessionResponse ''key''), Inr (SessionResponse ''key2'')])
        (Atom (StrV ''db1'')) (Atom (IntV 8184)) (Atom (StrV ''graph'')) (Atom (StrV ''g''))
        (Atom (StrV [])) (Atom (StrV [])) (Atom NoneV))))"
proof -
  let ?ops = "[Execute ''g.V()'' [] True True, Close True, Open True]"
  let ?c = "snd (init_conn (scripted [] [] [Inr (SessionResponse ''key''), Inr (ScriptResponse []),
           Inr (SessionResponse ''key''), Inr (SessionResponse ''key2'')])
        (Atom (StrV ''db1'')) (Atom (IntV 8184)) (Atom (StrV ''graph'')) (Atom (StrV ''g''))
        (Atom (StrV [])) (Atom (StrV [])) (Atom NoneV))"
  have ops: "TestConnection \<notin> set ?ops" by simp
  have k: "session_key (run ?ops ?c) = Some ''key2''"
    by (simp add: eval_defs cong: prod.case_cong_weak)
  show ?thesis
    using session_key_only_while_opened [OF ops, of "scripted [] [] [Inr (SessionResponse ''key''),
        Inr (ScriptResponse []), Inr (SessionResponse ''key''), Inr (SessionResponse ''key2'')]"
        "Atom (StrV ''db1'')" "Atom (IntV 8184)" "Atom (StrV ''graph'')" "Atom (StrV ''g'')"
        "Atom (StrV [])" "Atom (StrV [])" "Atom NoneV"] k
    by simp
qed

text \<open>
  C2 as stated fails. After a successful construction, a soft \<^verbatim>\<open>close\<close> leaves \<^verbatim>\<open>opened\<close>
  true with no session key; and after a hard \<^verbatim>\<open>close\<close>, an \<^verbatim>\<open>open_transaction\<close> whose
  script the server answers sets \<^verbatim>\<open>in_transaction\<close> on a connection that is not opened.
\<close>

theorem invariants_broken_after_close:
  "fst (demo_init (scripted [] [] [Inr (SessionResponse ''key''), Inr (SessionResponse ''key''),
      Inr (ScriptResponse [])])) = Ok () \<and>
   opened (run [Close True] (snd (demo_init (scripted [] [] [Inr (SessionResponse ''key''),
      Inr (SessionResponse ''key''), Inr (ScriptResponse [])])))) \<and>
   session_key (run [Close True] (snd (demo_init (scripted [] [] [Inr (SessionResponse ''key''),
      Inr (SessionResponse ''key''), Inr (ScriptResponse [])])))) = None \<and>
   in_transaction (run [Close False, OpenTransaction] (snd (demo_init (scripted [] []
      [Inr (SessionResponse ''key''), Inr (SessionResponse ''key''), Inr (ScriptResponse [])])))) \<and>
   \<not> opened (run [Close False, OpenTransaction] (snd (demo_init (scripted [] []
      [Inr (SessionResponse ''key''), Inr (SessionResponse ''key''), Inr (ScriptResponse [])]))))"
  by (simp add: demo_init_eq eval_defs cong: prod.case_cong_weak)

section \<open>The transaction scope\<close>

lemma untouched_refl [simp]: "untouched s s"
  by (simp add: untouched_defs)

lemma untouched_trans: "untouched s t \<Longrightarrow> untouched t u \<Longrightarrow> untouched s u"
  by (simp add: untouched_defs)

lemma sock_select_untouched: "untouched s (snd (sock_select s))"
  by (simp add: sock_select_def untouched_defs)

lemma sock_shutdown_untouched: "untouched s (snd (sock_shutdown s))"
  by (simp add: sock_shutdown_def untouched_defs split: option.splits)

lemma sock_close_untouched: "untouched s (snd (sock_close s))"
  by (simp add: sock_close_def untouched_defs split: option.splits)

lemma reconnect_try_untouched: "untouched s (snd (reconnect_try s))"
proof -
  obtain r1 s1 where a: "sock_shutdown s = (r1, s1)" by (cases "sock_shutdown s")
  obtain r2 s2 where b: "sock_close s1 = (r2, s2)" by (cases "sock_close s1")
  obtain r3 s3 where c: "sock_connect s2 = (r3, s3)" by (cases "sock_connect s2")
  obtain r4 s4 where d: "sock_select s3 = (r4, s4)" by (cases "sock_select s3")
  let ?s4 = "s4\<lparr>in_transaction := False, session_key := None\<rparr>"
  obtain r5 s5 where e: "open_session ?s4 = (r5, s5)" by (cases "open_session ?s4")
  have u1: "untouched s s1" using sock_shutdown_untouched [of s] a by simp
  have u2: "untouched s s2" using u1 sock_close_untouched [of s1] b by (auto intro: untouched_trans)
  have u3: "untouched s s3" using u2 sock_connect_result(1) [OF c] by (rule untouched_trans)
  have u4: "untouched s s4" using u3 sock_select_untouched [of s3] d by (auto intro: untouched_trans)
  have "untouched s4 s5" using open_session_result(1) [OF e] by (simp add: untouched_defs)
  with u4 have u5: "untouched s s5" by (rule untouched_trans)
  have "snd (reconnect_try s) = s1 \<or> snd (reconnect_try s) = s2 \<or> snd (reconnect_try s) = s3 \<or>
        snd (reconnect_try s) = s4 \<or> snd (reconnect_try s) = s5"
    using a b c d e by (auto simp: reconnect_try_def split: result.splits prod.splits)
  then show ?thesis using u1 u2 u3 u4 u5 by metis
qed

lemma reconnect_loop_untouched: "untouched s (snd (reconnect_loop ts s))"
proof (induction ts arbitrary: s)
  case Nil
  show ?case by simp
next
  case (Cons t ts)
  obtain r s1 where a: "reconnect_try s = (r, s1)" by (cases "reconnect_try s")
  have u1: "untouched s s1" using reconnect_try_untouched [of s] a by simp
  have u2: "untouched s (snd (reconnect_loop ts s1))" using u1 Cons.IH by (rule untouched_trans)
  show ?case
    using a u1 u2 by (cases r) (auto split: bool.splits)
qed

lemma test_connection_result:
  "same_config s (snd (test_connection s))"
  "calls (snd (test_connection s)) = calls s @ [CallTestConnection]"
  "host_blacklist (snd (test_connection s)) = host_blacklist s \<and>
   port_blacklist (snd (test_connection s)) = port_blacklist s \<and>
   current_host (snd (test_connection s)) = current_host s \<and>
   current_port (snd (test_connection s)) = current_port s"
proof -
  let ?s = "s\<lparr>calls := calls s @ [CallTestConnection]\<rparr>"
  obtain r1 s1 where a: "sock_select ?s = (r1, s1)" by (cases "sock_select ?s")
  have u1: "untouched ?s s1" using sock_select_untouched [of ?s] a by simp
  have u2: "untouched ?s (snd (reconnect_loop [2, 4, 8] s1))"
    using u1 reconnect_loop_untouched by (rule untouched_trans)
  have "snd (test_connection s) = s1 \<or> snd (test_connection s) = snd (reconnect_loop [2, 4, 8] s1)"
    using a by (auto simp: test_connection_def Let_def split: result.splits prod.splits)
  then have u: "untouched ?s (snd (test_connection s))" using u1 u2 by metis
  show "same_config s (snd (test_connection s))" using u by (simp add: untouched_defs)
  show "calls (snd (test_connection s)) = calls s @ [CallTestConnection]"
    using u by (simp add: untouched_defs)
  show "host_blacklist (snd (test_connection s)) = host_blacklist s \<and>
        port_blacklist (snd (test_connection s)) = port_blacklist s \<and>
        current_host (snd (test_connection s)) = current_host s \<and>
        current_port (snd (test_connection s)) = current_port s"
    using u by (simp add: untouched_defs)
qed

lemma open_transaction_calls:
  "calls (snd (open_transaction s)) = calls s @ [CallOpenTransaction]"
  using execute_quiet_config [of "s\<lparr>calls := calls s @ [CallOpenTransaction]\<rparr>"
      "''g.stopTransaction(FAILURE)''" "[]" False False]
  by (auto simp: open_transaction_def Let_def split: prod.splits result.splits)

lemma close_transaction_calls:
  "calls (snd (close_transaction success s)) = calls s @ [CallCloseTransaction success]"
  using execute_quiet_config [of "s\<lparr>calls := calls s @ [CallCloseTransaction success]\<rparr>"
      "''g.stopTransaction('' @ (if success then ''SUCCESS'' else ''FAILURE'') @ '')''" "[]"
      False False]
  by (auto simp: close_transaction_def Let_def split: prod.splits result.splits)

text \<open>
  C4, amended. The scope calls \<^verbatim>\<open>test_connection\<close> and, when that returns,
  \<^verbatim>\<open>open_transaction\<close>; an exception of either leaves the scope and the body is not run.
  Otherwise the body runs, and after it exactly one \<^verbatim>\<open>close_transaction\<close> is called: with
  \<^verbatim>\<open>True\<close> when the body completed, the scope then ending as that call ends, and with
  \<^verbatim>\<open>False\<close> when the body raised. In that case the body's exception is raised again when
  the \<^verbatim>\<open>close_transaction\<close> returns; when it raises, its exception leaves the scope instead.
\<close>

theorem transaction_scope_brackets_body:
  "(\<forall>e s1. test_connection s = (Raise e, s1) \<longrightarrow>
      transaction body s = (Raise e, s1) \<and> calls s1 = calls s @ [CallTestConnection]) \<and>
   (\<forall>s1 e s2. test_connection s = (Ok (), s1) \<and> open_transaction s1 = (Raise e, s2) \<longrightarrow>
      transaction body s = (Raise e, s2) \<and>
      calls s2 = calls s @ [CallTestConnection, CallOpenTransaction]) \<and>
   (\<forall>s1 s2 rb s3.
      test_connection s = (Ok (), s1) \<and> open_transaction s1 = (Ok (), s2) \<and> body s2 = (rb, s3) \<longrightarrow>
      calls s2 = calls s @ [CallTestConnection, CallOpenTransaction] \<and>
      (\<forall>v. rb = Ok v \<longrightarrow>
         transaction body s = close_transaction True s3 \<and>
         calls (snd (transaction body s)) = calls s3 @ [CallCloseTransaction True]) \<and>
      (\<forall>e. rb = Raise e \<longrightarrow>
         snd (transaction body s) = snd (close_transaction False s3) \<and>
         calls (snd (transaction body s)) = calls s3 @ [CallCloseTransaction False] \<and>
         fst (transaction body s) =
           (case fst (close_transaction False s3) of Ok u \<Rightarrow> Raise e | Raise e' \<Rightarrow> Raise e')))"
proof (intro conjI allI impI)
  fix e s1
  assume a: "test_connection s = (Raise e, s1)"
  show "transaction body s = (Raise e, s1)" using a by (simp add: transaction_def)
  show "calls s1 = calls s @ [CallTestConnection]" using test_connection_result(2) [of s] a by simp
next
  fix s1 e s2
  assume a: "test_connection s = (Ok (), s1) \<and> open_transaction s1 = (Raise e, s2)"
  show "transaction body s = (Raise e, s2)" using a by (simp add: transaction_def)
  show "calls s2 = calls s @ [CallTestConnection, CallOpenTransaction]"
    using test_connection_result(2) [of s] open_transaction_calls [of s1] a by simp
next
  fix s1 s2 rb s3
  assume a: "test_connection s = (Ok (), s1) \<and> open_transaction s1 = (Ok (), s2) \<and> body s2 = (rb, s3)"
  show "calls s2 = calls s @ [CallTestConnection, CallOpenTransaction]"
    using test_connection_result(2) [of s] open_transaction_calls [of s1] a by simp
  {
    fix v assume "rb = Ok v"
    then show "transaction body s = close_transaction True s3" using a by (simp add: transaction_def)
    then show "calls (snd (transaction body s)) = calls s3 @ [CallCloseTransaction True]"
      by (simp add: close_transaction_calls)
  }
  {
    fix e assume r: "rb = Raise e"
    show "snd (transaction body s) = snd (close_transaction False s3)"
      using a r by (simp add: transaction_def split: prod.splits result.splits)
    then show "calls (snd (transaction body s)) = calls s3 @ [CallCloseTransaction False]"
      by (simp add: close_transaction_calls)
    show "fst (transaction body s) =
           (case fst (close_transaction False s3) of Ok u \<Rightarrow> Raise e | Raise e' \<Rightarrow> Raise e')"
      using a r by (simp add: transaction_def split: prod.splits result.splits)
  }
qed

theorem transaction_scope_brackets_body_witness:
  "fst (transaction query_body (snd (demo_init (scripted [] []
      [Inr (SessionResponse ''key''), Inr (ScriptResponse []), Inr (ScriptResponse [IntV 7]),
       Inr (ScriptResponse [])])))) = Ok () \<and>
   calls (snd (transaction query_body (snd (demo_init (scripted [] []
      [Inr (SessionResponse ''key''), Inr (ScriptResponse []), Inr (ScriptResponse [IntV 7]),
       Inr (ScriptResponse [])]))))) =
     [CallTestConnection, CallOpenTransaction, CallCloseTransaction True]"
proof -
  let ?c = "snd (demo_init (scripted [] []
      [Inr (SessionResponse ''key''), Inr (ScriptResponse []), Inr (ScriptResponse [IntV 7]),
       Inr (ScriptResponse [])]))"
  let ?s1 = "snd (test_connection ?c)"
  let ?s2 = "snd (open_transaction ?s1)"
  let ?s3 = "snd (query_body ?s2)"
  have h1: "test_connection ?c = (Ok (), ?s1)"
    by (simp add: demo_init_eq eval_defs cong: prod.case_cong_weak)
  have h2: "open_transaction ?s1 = (Ok (), ?s2)"
    by (simp add: demo_init_eq eval_defs cong: prod.case_cong_weak)
  have h3: "query_body ?s2 = (Ok (Some [IntV 7]), ?s3)"
    by (simp add: query_body_def demo_init_eq eval_defs cong: prod.case_cong_weak)
  have h4: "fst (close_transaction True ?s3) = Ok ()"
    by (simp add: query_body_def demo_init_eq eval_defs cong: prod.case_cong_weak)
  have h5: "calls ?s3 = [CallTestConnection, CallOpenTransaction]"
    by (simp add: query_body_def demo_init_eq eval_defs cong: prod.case_cong_weak)
  have "calls ?s2 = calls ?c @ [CallTestConnection, CallOpenTransaction] \<and>
      (\<forall>v. Ok (Some [IntV 7]) = Ok v \<longrightarrow>
         transaction query_body ?c = close_transaction True ?s3 \<and>
         calls (snd (transaction query_body ?c)) = calls ?s3 @ [CallCloseTransaction True]) \<and>
      (\<forall>e. Ok (Some [IntV 7]) = Raise e \<longrightarrow>
         snd (transaction query_body ?c) = snd (close_transaction False ?s3) \<and>
         calls (snd (transaction query_body ?c)) = calls ?s3 @ [CallCloseTransaction False] \<and>
         fst (transaction query_body ?c) =
           (case fst (close_transaction False ?s3) of Ok u \<Rightarrow> Raise e | Raise e' \<Rightarrow> Raise e'))"
    using transaction_scope_brackets_body [of ?c query_body] h1 h2 h3 by blast
  then have e1: "transaction query_body ?c = close_transaction True ?s3"
    and e2: "calls (snd (transaction query_body ?c)) = calls ?s3 @ [CallCloseTransaction True]"
    by blast+
  have "fst (transaction query_body ?c) = Ok ()" unfolding e1 by (rule h4)
  moreover have "calls (snd (transaction query_body ?c)) =
                   [CallTestConnection, CallOpenTransaction, CallCloseTransaction True]"
    unfolding e2 h5 by simp
  ultimately show ?thesis by (rule conjI)
qed

text \<open>
  C4 as stated fails. The body's query times out in all three attempts of \<^verbatim>\<open>execute\<close>, so
  the body raises the socket's error; the retries have closed and reopened the connection,
  which is no longer in a transaction, and the \<^verbatim>\<open>close_transaction(False)\<close> of the scope
  raises \<^verbatim>\<open>RexProScriptException\<close>. That exception leaves the scope, not the body's.
\<close>

theorem transaction_scope_loses_body_fault:
  "fst (query_body (snd (open_transaction (snd (test_connection (snd (demo_init (scripted [] []
      [Inr (SessionResponse ''key''), Inr (ScriptResponse []), Inl ''timed out'',
       Inr (SessionResponse ''key''), Inr (SessionResponse ''key2''), Inl ''timed out'',
       Inr (SessionResponse ''key2''), Inr (SessionResponse ''key3''), Inl ''timed out'']))))))))
     = Raise (SocketError ''timed out'') \<and>
   fst (transaction query_body (snd (demo_init (scripted [] []
      [Inr (SessionResponse ''key''), Inr (ScriptResponse []), Inl ''timed out'',
       Inr (SessionResponse ''key''), Inr (SessionResponse ''key2''), Inl ''timed out'',
       Inr (SessionResponse ''key2''), Inr (SessionResponse ''key3''), Inl ''timed out'']))))
     = Raise (RexPro (RexProScriptException ''transaction is not open'')) \<and>
   calls (snd (transaction query_body (snd (demo_init (scripted [] []
      [Inr (SessionResponse ''key''), Inr (ScriptResponse []), Inl ''timed out'',
       Inr (SessionResponse ''key''), Inr (SessionResponse ''key2''), Inl ''timed out'',
       Inr (SessionResponse ''key2''), Inr (SessionResponse ''key3''), Inl ''timed out''])))))
     = [CallTestConnection, CallOpenTransaction, CallCloseTransaction False]"
  by (simp add: query_body_def demo_init_eq eval_defs cong: prod.case_cong_weak)

section \<open>Blacklists and endpoint draws\<close>













lemma sock_connect_no_index: "fst (sock_connect s) \<noteq> Raise IndexError"
  by (simp add: sock_connect_def split: option.splits)












lemma endpoints_ok_calls [simp]: "endpoints_ok (s\<lparr>calls := c\<rparr>) = endpoints_ok s"
  by (simp add: endpoints_ok_def endpoints_ready_def)

lemma endpoints_ok_in_transaction [simp]: "endpoints_ok (s\<lparr>in_transaction := b\<rparr>) = endpoints_ok s"
  by (simp add: endpoints_ok_def endpoints_ready_def)
















text \<open>
  With two hosts and two ports and two refused connects, the second failure makes both
  blacklists cover their candidates; \<^verbatim>\<open>connection_failed\<close> has cleared them before the
  third draw, which picks the first host and port again.
\<close>

lemma blacklists_cleared_at_full_coverage:
  "host_blacklist (snd (connection_failed (snd (open_attempt False
      (demo_conn (scripted [Some ''refused'', Some ''refused''] [] [Inr (SessionResponse ''key'')])))))) =
     {StrV ''h1''} \<and>
   host_blacklist (snd (connection_failed (snd (open_attempt False (snd (connection_failed (snd
      (open_attempt False (demo_conn (scripted [Some ''refused'', Some ''refused''] []
         [Inr (SessionResponse ''key'')])))))))))) = {} \<and>
   fst (demo_init (scripted [Some ''refused'', Some ''refused''] [] [Inr (SessionResponse ''key'')]))
     = Ok () \<and>
   current_host (snd (demo_init (scripted [Some ''refused'', Some ''refused''] []
      [Inr (SessionResponse ''key'')]))) = StrV ''h1'' \<and>
   current_port (snd (demo_init (scripted [Some ''refused'', Some ''refused''] []
      [Inr (SessionResponse ''key'')]))) = IntV 8184"
  by (simp add: demo_init_eq eval_defs cong: prod.case_cong_weak)

section \<open>Overrides at connection creation, in general\<close>

text \<open>
  Each field of the connection \<^verbatim>\<open>_create_connection\<close> constructs is the override when the
  override is truthy and the pool's value otherwise, whether or not the constructor's
  \<^verbatim>\<open>open\<close> raises.
\<close>

lemma create_connection_merges_by_truthiness:
  "host (snd (private_create_connection w h p g go u pw t self)) = py_or h (host self) \<and>
   port (snd (private_create_connection w h p g go u pw t self)) = py_or p (port self) \<and>
   graph_name (snd (private_create_connection w h p g go u pw t self)) = py_or g (graph_name self) \<and>
   graph_obj_name (snd (private_create_connection w h p g go u pw t self)) =
     py_or go (graph_obj_name self) \<and>
   username (snd (private_create_connection w h p g go u pw t self)) = py_or u (username self) \<and>
   password (snd (private_create_connection w h p g go u pw t self)) = py_or pw (password self) \<and>
   timeout (snd (private_create_connection w h p g go u pw t self)) = py_or t (timeout self)"
  using open_conn_quiet [of "new_conn w (py_or h (host self)) (py_or p (port self))
      (py_or g (graph_name self)) (py_or go (graph_obj_name self)) (py_or u (username self))
      (py_or pw (password self)) (py_or t (timeout self))" False]
  by (simp add: private_create_connection_def init_conn_def quiet_defs new_conn_def)


end
